theory Spec2Isabelle
  imports Main "HOL-Library.Word" "HOL-Library.AList"
begin

unbundle bit_operations_syntax

section \<open>Results and errors\<close>

text \<open>
  Every Go function of the repository that returns an \<^verbatim>\<open>error\<close> is modelled by a
  function into \<open>'a result\<close>. \<open>Err e\<close> is the error return. \<open>Timeout\<close> is the value of
  a traversal of linked chunks whose fuel ran out: the Go loops over \<^verbatim>\<open>next\<close> and
  \<^verbatim>\<open>prev\<close> pointers and the recursion of the bucket split have no bound of their own.
\<close>

type_synonym byte = "8 word"

type_synonym ChunkPtr = int

datatype error =
    EOF
  | ErrUnexpectedEOF
  | ChunkNotFound ChunkPtr
  | ChunkTooSmall
  | WrongLength nat nat
  | InvalidBucketType nat
  | CannotAppend nat
  | KeyNotFound "byte list"
  | NotHeadNode
  | UnknownWhence int
  | IndexOutOfRange
  | NilPointer
  | ErrBucketNotFound
  | ErrKeyNotFound
  | DivideByZero

datatype 'a result = Ok 'a | Err error | Timeout

definition bind :: "'a result \<Rightarrow> ('a \<Rightarrow> 'b result) \<Rightarrow> 'b result" where
  "bind r k = (case r of Ok x \<Rightarrow> k x | Err e \<Rightarrow> Err e | Timeout \<Rightarrow> Timeout)"

text \<open>
  Go's \<^verbatim>\<open>uint32\<close> and \<^verbatim>\<open>int64\<close> values are natural numbers and integers of the model;
  \<open>u32\<close> and \<open>i64\<close> are the wrap-around of a conversion or of an arithmetic result.
\<close>

definition u32 :: "int \<Rightarrow> nat" where
  "u32 x = nat (x mod 2 ^ 32)"

definition i64 :: "int \<Rightarrow> int" where
  "i64 x = (x + 2 ^ 63) mod 2 ^ 64 - 2 ^ 63"

section \<open>Chunk pool (container/pool.go)\<close>

text \<open>
  A \<^verbatim>\<open>*Chunk\<close> of the Go code is an object shared by pointer between the pool's
  maps and every caller that holds it. The model keeps one record per chunk in the map
  \<open>chunks\<close>, keyed by the chunk's position, and a \<open>Chunk\<close> value held by a caller
  stands for the pointer: operations on it address the record at \<open>pos\<close>.

  The backing stream \<^verbatim>\<open>f\<close> is represented by its length \<open>f_end\<close> and, for every
  chunk position, the \<^verbatim>\<open>cap\<close> payload bytes that follow the nine header bytes
  (\<open>f_data\<close>). Header bytes are the chunk records themselves: the Go code rewrites the
  header on disk at every change of \<^verbatim>\<open>size\<close> or \<^verbatim>\<open>free\<close>. Seek and Write of the
  stream do not fail; Read reports \<open>EOF\<close> when the cursor is at the end of the stream,
  also for an empty buffer, as \<^verbatim>\<open>Object.read\<close> and the test suite's
  \<^verbatim>\<open>readWriteSeeker\<close> do.

  Go ranges over the map \<^verbatim>\<open>freeChunks\<close> in an unspecified order. \<open>order\<close> is the
  list of choices still to come: \<open>Alloc\<close> takes the fitting free chunk whose index,
  among the fitting ones, is the head of \<open>order\<close>.
\<close>

record Chunk =
  pos :: int
  cap :: nat
  size :: nat
  free :: bool

record Pool =
  f_end :: int
  f_data :: "int \<Rightarrow> byte list"
  chunks :: "(int \<times> Chunk) list"
  freeChunks :: "int list"
  order :: "nat list"

definition headerSize :: nat where
  "headerSize = 4 + 4 + 1"

definition chunkAt :: "Pool \<Rightarrow> int \<Rightarrow> Chunk option" where
  "chunkAt p k = map_of (chunks p) k"

definition Get :: "Pool \<Rightarrow> ChunkPtr \<Rightarrow> Chunk result" where
  "Get p ptr = (case chunkAt p ptr of None \<Rightarrow> Err (ChunkNotFound ptr) | Some c \<Rightarrow> Ok c)"

definition Ptr :: "Chunk \<Rightarrow> ChunkPtr" where
  "Ptr c = pos c"

definition Pool_Size :: "Pool \<Rightarrow> nat" where
  "Pool_Size p = length (chunks p)"

definition writeHeader :: "Pool \<Rightarrow> Chunk \<Rightarrow> Pool" where
  "writeHeader p c = p\<lparr>chunks := AList.update (pos c) c (chunks p)\<rparr>"

definition fitting :: "Pool \<Rightarrow> nat \<Rightarrow> int list" where
  "fitting p n =
     filter (\<lambda>idx. case chunkAt p idx of None \<Rightarrow> False | Some c \<Rightarrow> \<not> cap c < n) (freeChunks p)"

definition initialize :: "Pool \<Rightarrow> nat \<Rightarrow> Chunk \<times> Pool" where
  "initialize p n =
     (let c = \<lparr>pos = f_end p, cap = n, size = 0, free = False\<rparr>
      in (c, p\<lparr>f_end := f_end p + int headerSize + int n,
                f_data := (f_data p)(f_end p := replicate n 0)\<rparr>))"

definition Alloc :: "Pool \<Rightarrow> nat \<Rightarrow> Chunk \<times> Pool" where
  "Alloc p n =
     (case fitting p n of
        [] \<Rightarrow>
          (case initialize p n of (c, p') \<Rightarrow> (c, p'\<lparr>chunks := AList.update (pos c) c (chunks p')\<rparr>))
      | i # js \<Rightarrow>
          (let k = (case order p of [] \<Rightarrow> 0 | j # _ \<Rightarrow> j);
               idx = (i # js) ! (k mod length (i # js));
               p1 = p\<lparr>order := tl (order p)\<rparr>
           in case chunkAt p idx of
                None \<Rightarrow> (case initialize p1 n of (c, p') \<Rightarrow> (c, p'\<lparr>chunks := AList.update (pos c) c (chunks p')\<rparr>))
              | Some c0 \<Rightarrow>
                  (let c = c0\<lparr>size := 0, free := False\<rparr>;
                       p2 = writeHeader p1 c
                   in (c, p2\<lparr>freeChunks := removeAll idx (freeChunks p2)\<rparr>))))"

definition freeChunk :: "Pool \<Rightarrow> Chunk \<Rightarrow> Pool" where
  "freeChunk p h =
     (case chunkAt p (pos h) of
        None \<Rightarrow> p
      | Some c \<Rightarrow>
          (let p1 = writeHeader p (c\<lparr>free := True\<rparr>)
           in p1\<lparr>freeChunks := List.insert (pos c) (freeChunks p1)\<rparr>))"

definition Free :: "Pool \<Rightarrow> Chunk \<Rightarrow> Pool" where
  "Free p h = freeChunk p h"

definition Chunk_Write :: "Pool \<Rightarrow> Chunk \<Rightarrow> byte list \<Rightarrow> (nat \<times> Pool) result" where
  "Chunk_Write p h bs =
     (case chunkAt p (pos h) of
        None \<Rightarrow> Err (ChunkNotFound (pos h))
      | Some c \<Rightarrow>
          if length bs > cap c then Err ChunkTooSmall
          else
            (let p1 = writeHeader p (c\<lparr>size := length bs mod 2 ^ 32\<rparr>)
             in Ok (length bs,
                    p1\<lparr>f_data := (f_data p1)(pos c := bs @ drop (length bs) (f_data p1 (pos c)))\<rparr>)))"

text \<open>
  \<^verbatim>\<open>Chunk.WriteAt\<close> takes the offset as an \<^verbatim>\<open>int64\<close> and checks only that offset plus
  length does not exceed \<^verbatim>\<open>cap\<close>. For an offset inside the payload the bytes replace
  payload bytes of the chunk. Any other offset that passes the check (a negative one, or
  one whose sum with the length wraps) makes the code seek to
  \<open>pos + headerSize + off\<close>, which fails before the start of the stream, and write there:
  \<open>writeStream\<close> puts the bytes into every payload they overlap. The header bytes of the
  stream that such a write covers are not kept by the model; the pool works on its chunk
  records and does not read a header again.
\<close>

definition patch :: "byte list \<Rightarrow> int \<Rightarrow> byte list \<Rightarrow> byte list" where
  "patch old d bs =
     map (\<lambda>i. if d \<le> int i \<and> int i < d + int (length bs) then bs ! nat (int i - d) else old ! i)
       [0 ..< length old]"

definition writeStream :: "Pool \<Rightarrow> int \<Rightarrow> byte list \<Rightarrow> Pool" where
  "writeStream p x bs =
     p\<lparr>f_end := max (f_end p) (x + int (length bs)),
       f_data := (\<lambda>k. case chunkAt p k of
                          None \<Rightarrow> f_data p k
                        | Some c \<Rightarrow> patch (f_data p k) (x - (k + int headerSize)) bs)\<rparr>"

definition WriteAt :: "Pool \<Rightarrow> Chunk \<Rightarrow> byte list \<Rightarrow> int \<Rightarrow> (nat \<times> Pool) result" where
  "WriteAt p h bs off =
     (case chunkAt p (pos h) of
        None \<Rightarrow> Err (ChunkNotFound (pos h))
      | Some c \<Rightarrow>
          if i64 (off + int (length bs)) > int (cap c) then Err ChunkTooSmall
          else
            (let p1 = (if i64 (off + int (length bs)) > int (size c)
                       then writeHeader p (c\<lparr>size := (length bs mod 2 ^ 32 + nat (off mod 2 ^ 32)) mod 2 ^ 32\<rparr>)
                       else p);
                 x = i64 (pos c + int headerSize + off)
             in if x < 0 then Err EOF
                else if 0 \<le> off \<and> off + int (length bs) \<le> int (cap c) then
                  (let old = f_data p1 (pos c)
                   in Ok (length bs,
                          p1\<lparr>f_data := (f_data p1)(pos c := take (nat off) old @ bs
                                                            @ drop (nat off + length bs) old)\<rparr>))
                else Ok (length bs, writeStream p1 x bs)))"

text \<open>
  \<^verbatim>\<open>Chunk.ReadAll\<close> reads \<^verbatim>\<open>size\<close> bytes from the start of the payload. \<^verbatim>\<open>Write\<close> and
  \<^verbatim>\<open>WriteAt\<close> inside the payload keep \<^verbatim>\<open>size\<close> at most \<^verbatim>\<open>cap\<close>, and the model returns
  the first \<^verbatim>\<open>size\<close> bytes of the payload. A header with \<^verbatim>\<open>size\<close> above \<^verbatim>\<open>cap\<close> can come
  only from a stream that \<^verbatim>\<open>NewPool\<close> scanned and the pool did not write; there the code
  reads on into the bytes of the chunk that follows, which the model does not do: it
  returns the payload alone.
\<close>

definition ReadAll :: "Pool \<Rightarrow> Chunk \<Rightarrow> byte list result" where
  "ReadAll p h =
     (case chunkAt p (pos h) of
        None \<Rightarrow> Err (ChunkNotFound (pos h))
      | Some c \<Rightarrow>
          if f_end p \<le> pos c + int headerSize then Err EOF
          else if f_end p < pos c + int headerSize + int (size c) then Err EOF
          else Ok (take (size c) (f_data p (pos c))))"

definition AllocAndWrite :: "Pool \<Rightarrow> byte list \<Rightarrow> (Chunk \<times> Pool) result" where
  "AllocAndWrite p b =
     (case Alloc p (length b mod 2 ^ 32) of
        (c, p1) \<Rightarrow>
          (case Chunk_Write p1 c b of
             Ok (n, p2) \<Rightarrow> Ok (c, p2)
           | Err e \<Rightarrow> (case Free p1 c of p3 \<Rightarrow> Err e)
           | Timeout \<Rightarrow> Timeout))"

definition emptyPool :: "nat list \<Rightarrow> Pool" where
  "emptyPool sched =
     \<lparr>f_end = 0, f_data = (\<lambda>_. []), chunks = [], freeChunks = [], order = sched\<rparr>"

text \<open>
  \<^verbatim>\<open>NewPool\<close> scans the stream \<open>s\<close> from offset 0. \<open>readHeaderFrom s q\<close> reads the
  three header fields at offset \<open>q\<close> with \<^verbatim>\<open>binary.Read\<close>: a field of which no byte
  is left gives \<open>EOF\<close>, a field cut short gives \<open>ErrUnexpectedEOF\<close>, and the fields
  after a failed one keep their zero values. Its result is the error, the fields and the
  offset after the bytes consumed. The loop of \<^verbatim>\<open>NewPool\<close> stops at \<open>EOF\<close> only;
  the seek over the payload fails past the end of the stream, as \<^verbatim>\<open>Object.Seek\<close> does.
\<close>

definition le32 :: "byte list \<Rightarrow> nat" where
  "le32 bs = foldr (\<lambda>b acc. unat b + 256 * acc) bs 0"

definition readHeaderFrom :: "byte list \<Rightarrow> nat \<Rightarrow> error option \<times> nat \<times> nat \<times> bool \<times> nat" where
  "readHeaderFrom s q =
     (let n = length s - q
      in if n = 0 then (Some EOF, 0, 0, False, q)
         else if n < 4 then (Some ErrUnexpectedEOF, 0, 0, False, q + n)
         else
           (let cp = le32 (take 4 (drop q s))
            in if n = 4 then (Some EOF, cp, 0, False, q + 4)
               else if n < 8 then (Some ErrUnexpectedEOF, cp, 0, False, q + n)
               else
                 (let sz = le32 (take 4 (drop (q + 4) s))
                  in if n = 8 then (Some EOF, cp, sz, False, q + 8)
                     else (None, cp, sz, s ! (q + 8) \<noteq> 0, q + 9))))"

function scanChunks :: "byte list \<Rightarrow> nat \<Rightarrow> Pool \<Rightarrow> Pool result" where
  "scanChunks s q pool =
     (case readHeaderFrom s q of
        (err, cp, sz, fr, q') \<Rightarrow>
          if err = Some EOF then Ok pool
          else if length s < q' + cp then Err EOF
          else
            (let c = \<lparr>pos = int q, cap = cp, size = sz, free = fr\<rparr>
             in scanChunks s (q' + cp)
                  (pool\<lparr>chunks := AList.update (int q) c (chunks pool),
                        f_data := (f_data pool)(int q := take cp (drop q' s)),
                        freeChunks := (if fr then List.insert (int q) (freeChunks pool)
                                       else freeChunks pool)\<rparr>)))"
  by pat_completeness auto
termination
  by (relation "measure (\<lambda>(s, q, pool). length s - q)")
     (auto simp: readHeaderFrom_def Let_def split: if_splits)

definition NewPool :: "byte list \<Rightarrow> nat list \<Rightarrow> Pool result" where
  "NewPool s sched =
     scanChunks s 0
       \<lparr>f_end = int (length s), f_data = (\<lambda>_. []), chunks = [], freeChunks = [], order = sched\<rparr>"

text \<open>
  The layout invariant of a pool: a chunk is filed under its own position, and its header
  and payload lie inside the backing stream.
\<close>

definition pool_inv :: "Pool \<Rightarrow> bool" where
  "pool_inv p \<longleftrightarrow>
     0 \<le> f_end p \<and>
     (\<forall>k c. chunkAt p k = Some c \<longrightarrow> pos c = k \<and> 0 \<le> k \<and> k + int headerSize + int (cap c) \<le> f_end p)"

text \<open>The operations a client of the pool can apply, and a run of them.\<close>

datatype pool_op =
    OpAlloc nat
  | OpWrite ChunkPtr "byte list"
  | OpWriteAt ChunkPtr "byte list" int
  | OpFree ChunkPtr

fun apply_op :: "Pool \<Rightarrow> pool_op \<Rightarrow> Pool" where
  "apply_op p (OpAlloc n) = snd (Alloc p n)"
| "apply_op p (OpWrite ptr bs) =
     (case Get p ptr of
        Ok c \<Rightarrow> (case Chunk_Write p c bs of Ok (n, p') \<Rightarrow> p' | _ \<Rightarrow> p)
      | _ \<Rightarrow> p)"
| "apply_op p (OpWriteAt ptr bs off) =
     (case Get p ptr of
        Ok c \<Rightarrow> (case WriteAt p c bs off of Ok (n, p') \<Rightarrow> p' | _ \<Rightarrow> p)
      | _ \<Rightarrow> p)"
| "apply_op p (OpFree ptr) = (case Get p ptr of Ok c \<Rightarrow> Free p c | _ \<Rightarrow> p)"

fun run_ops :: "Pool \<Rightarrow> pool_op list \<Rightarrow> Pool" where
  "run_ops p [] = p"
| "run_ops p (x # xs) = run_ops (apply_op p x) xs"

section \<open>Little-endian fields (encoding/binary)\<close>

text \<open>
  A \<^verbatim>\<open>ChunkPtr\<close> is an \<^verbatim>\<open>int64\<close>, written as eight little-endian bytes in two's
  complement.
\<close>

definition enc64 :: "int \<Rightarrow> byte list" where
  "enc64 x =
     [word_of_int x, word_of_int (x div 2 ^ 8), word_of_int (x div 2 ^ 16),
      word_of_int (x div 2 ^ 24), word_of_int (x div 2 ^ 32), word_of_int (x div 2 ^ 40),
      word_of_int (x div 2 ^ 48), word_of_int (x div 2 ^ 56)]"

definition dec64 :: "byte list \<Rightarrow> int" where
  "dec64 bs =
     (let u = foldr (\<lambda>b acc. uint b + 256 * acc) (take 8 bs) 0
      in if u < 2 ^ 63 then u else u - 2 ^ 64)"

section \<open>KV node (doubly linked list cell)\<close>

text \<open>
  A \<^verbatim>\<open>KVNode\<close> value is the in-memory copy of a node: its chunk and the four
  pointers as they were read or last written through this copy.
\<close>

record KVNode =
  kv_chunk :: Chunk
  kv_prev :: ChunkPtr
  kv_next :: ChunkPtr
  kv_key :: ChunkPtr
  kv_value :: ChunkPtr

definition sizeKVNode :: nat where
  "sizeKVNode = 4 * 8"

definition dto :: "KVNode \<Rightarrow> byte list" where
  "dto n = enc64 (kv_prev n) @ enc64 (kv_next n) @ enc64 (kv_key n) @ enc64 (kv_value n)"

definition KVNode_Write :: "Pool \<Rightarrow> KVNode \<Rightarrow> Pool result" where
  "KVNode_Write p n = bind (Chunk_Write p (kv_chunk n) (dto n)) (\<lambda>(k, p'). Ok p')"

definition NewKVNode :: "Pool \<Rightarrow> ChunkPtr \<Rightarrow> ChunkPtr \<Rightarrow> (KVNode \<times> Pool) result" where
  "NewKVNode p key val =
     (case Alloc p sizeKVNode of
        (c, p1) \<Rightarrow>
          (let node = \<lparr>kv_chunk = c, kv_prev = 0, kv_next = 0, kv_key = key, kv_value = val\<rparr>
           in bind (KVNode_Write p1 node) (\<lambda>p2. Ok (node, p2))))"

definition NewKVNodeFromChunk :: "Pool \<Rightarrow> Chunk \<Rightarrow> KVNode result" where
  "NewKVNodeFromChunk p c =
     bind (ReadAll p c) (\<lambda>b.
       if length b = 0 then Err EOF
       else if length b < sizeKVNode then Err ErrUnexpectedEOF
       else Ok \<lparr>kv_chunk = c, kv_prev = dec64 b, kv_next = dec64 (drop 8 b),
                kv_key = dec64 (drop 16 b), kv_value = dec64 (drop 24 b)\<rparr>)"

definition NewKVNodeFromChunkPtr :: "Pool \<Rightarrow> ChunkPtr \<Rightarrow> KVNode result" where
  "NewKVNodeFromChunkPtr p ptr = bind (Get p ptr) (\<lambda>c. NewKVNodeFromChunk p c)"

definition KVNode_Key :: "Pool \<Rightarrow> KVNode \<Rightarrow> Chunk result" where
  "KVNode_Key p n = Get p (kv_key n)"

definition KeyBytes :: "Pool \<Rightarrow> KVNode \<Rightarrow> byte list result" where
  "KeyBytes p n = bind (Get p (kv_key n)) (\<lambda>c. ReadAll p c)"

definition KVNode_Value :: "Pool \<Rightarrow> KVNode \<Rightarrow> Chunk result" where
  "KVNode_Value p n = Get p (kv_value n)"

definition ValueBytes :: "Pool \<Rightarrow> KVNode \<Rightarrow> byte list result" where
  "ValueBytes p n = bind (Get p (kv_value n)) (\<lambda>c. ReadAll p c)"

definition SetValue :: "Pool \<Rightarrow> KVNode \<Rightarrow> ChunkPtr \<Rightarrow> (ChunkPtr \<times> KVNode \<times> Pool) result" where
  "SetValue p n val =
     bind (KVNode_Value p n) (\<lambda>oldValue.
       let n' = n\<lparr>kv_value := val\<rparr>
       in bind (KVNode_Write p n') (\<lambda>p'. Ok (Ptr oldValue, n', p')))"

definition KVNode_Next :: "Pool \<Rightarrow> KVNode \<Rightarrow> KVNode option result" where
  "KVNode_Next p n =
     (if kv_next n = 0 then Ok None
      else bind (Get p (kv_next n)) (\<lambda>c. bind (NewKVNodeFromChunk p c) (\<lambda>m. Ok (Some m))))"

definition KVNode_Prev :: "Pool \<Rightarrow> KVNode \<Rightarrow> KVNode option result" where
  "KVNode_Prev p n =
     (if kv_prev n = 0 then Ok None
      else bind (Get p (kv_prev n)) (\<lambda>c. bind (NewKVNodeFromChunk p c) (\<lambda>m. Ok (Some m))))"

fun ListSize :: "nat \<Rightarrow> Pool \<Rightarrow> KVNode \<Rightarrow> int result" where
  "ListSize 0 p n = Timeout"
| "ListSize (Suc fuel) p n =
     (if kv_next n = 0 then Ok 1
      else bind (KVNode_Next p n) (\<lambda>m.
             case m of
               None \<Rightarrow> Err NilPointer
             | Some n' \<Rightarrow> bind (ListSize fuel p n') (\<lambda>s. Ok (s + 1))))"

fun lastNode :: "nat \<Rightarrow> Pool \<Rightarrow> KVNode \<Rightarrow> KVNode result" where
  "lastNode 0 p n = Timeout"
| "lastNode (Suc fuel) p n =
     (if kv_next n = 0 then Ok n
      else bind (KVNode_Next p n) (\<lambda>m.
             case m of None \<Rightarrow> Err NilPointer | Some n' \<Rightarrow> lastNode fuel p n'))"

definition KVNode_Append ::
  "nat \<Rightarrow> Pool \<Rightarrow> KVNode \<Rightarrow> ChunkPtr \<Rightarrow> ChunkPtr \<Rightarrow> (KVNode \<times> Pool) result" where
  "KVNode_Append fuel p n key val =
     bind (lastNode fuel p n) (\<lambda>lst.
       case Alloc p sizeKVNode of
         (c, p1) \<Rightarrow>
           (let node = \<lparr>kv_chunk = c, kv_prev = Ptr (kv_chunk lst), kv_next = 0,
                        kv_key = key, kv_value = val\<rparr>
            in bind (KVNode_Write p1 node) (\<lambda>p2.
                 bind (KVNode_Write p2 (lst\<lparr>kv_next := Ptr (kv_chunk node)\<rparr>)) (\<lambda>p3.
                   Ok (node, p3)))))"

fun headOf :: "nat \<Rightarrow> Pool \<Rightarrow> KVNode \<Rightarrow> KVNode result" where
  "headOf 0 p h = Timeout"
| "headOf (Suc fuel) p h =
     (if kv_prev h = 0 then Ok h
      else bind (KVNode_Prev p h) (\<lambda>m.
             case m of None \<Rightarrow> Err NilPointer | Some h' \<Rightarrow> headOf fuel p h'))"

text \<open>
  \<^verbatim>\<open>KVNode.Delete\<close>. In the second branch the Go code ignores the error of
  \<^verbatim>\<open>n.Prev()\<close> and dereferences its result; the walk to the head has made the same
  call on the same pool just before, so that call has succeeded whenever this point is
  reached.
\<close>

definition KVNode_Delete :: "nat \<Rightarrow> Pool \<Rightarrow> KVNode \<Rightarrow> (ChunkPtr \<times> Pool) result" where
  "KVNode_Delete fuel p n =
     (if kv_prev n = 0 then
        (let p1 = Free p (kv_chunk n)
         in bind (KVNode_Next p1 n) (\<lambda>nx.
              case nx of
                None \<Rightarrow> Ok (kv_next n, p1)
              | Some nxt \<Rightarrow>
                  bind (KVNode_Write p1 (nxt\<lparr>kv_prev := 0\<rparr>)) (\<lambda>p2. Ok (kv_next n, p2))))
      else
        bind (headOf fuel p n) (\<lambda>head.
          case KVNode_Prev p n of
            Ok (Some prv) \<Rightarrow>
              bind (KVNode_Write p (prv\<lparr>kv_next := kv_next n\<rparr>)) (\<lambda>p1.
                Ok (Ptr (kv_chunk head), Free p1 (kv_chunk n)))
          | _ \<Rightarrow> Err NilPointer))"

fun deleteLoop :: "nat \<Rightarrow> Pool \<Rightarrow> KVNode \<Rightarrow> Pool result" where
  "deleteLoop 0 p n = Timeout"
| "deleteLoop (Suc fuel) p n =
     bind (KVNode_Delete fuel p n) (\<lambda>(newHead, p1).
       if newHead = 0 then Ok p1
       else bind (NewKVNodeFromChunkPtr p1 newHead) (\<lambda>n'. deleteLoop fuel p1 n'))"

definition DeleteAll :: "nat \<Rightarrow> Pool \<Rightarrow> KVNode \<Rightarrow> Pool result" where
  "DeleteAll fuel p n = (if kv_prev n \<noteq> 0 then Err NotHeadNode else deleteLoop fuel p n)"

section \<open>Hash-bucket arrays\<close>

definition HashMapN :: nat where
  "HashMapN = 128"

definition HashMapMaxList :: int where
  "HashMapMaxList = 32"

definition bucketTypeList :: nat where
  "bucketTypeList = 0"

definition bucketTypeBuckets :: nat where
  "bucketTypeBuckets = 1"

record hashBucket =
  b_Type :: nat
  b_Head :: ChunkPtr
  b_chunk :: Chunk
  b_idx :: nat

definition sizeHashBucket :: nat where
  "sizeHashBucket = 1 + 8"

definition sizeHashBuckets :: nat where
  "sizeHashBuckets = HashMapN * sizeHashBucket"

text \<open>
  \<^verbatim>\<open>hashBuckets\<close> is an array of 128 pointers to buckets that share one chunk. The
  model's list always has 128 entries, the entry at index \<open>i\<close> with \<open>b_idx = i\<close>.
\<close>

type_synonym hashBuckets = "hashBucket list"

definition newHashBuckets :: "Chunk \<Rightarrow> hashBuckets" where
  "newHashBuckets c =
     map (\<lambda>i. \<lparr>b_Type = 0, b_Head = 0, b_chunk = c, b_idx = i\<rparr>) [0..<HashMapN]"

definition bucketBytes :: "hashBucket \<Rightarrow> byte list" where
  "bucketBytes b = word_of_nat (b_Type b) # enc64 (b_Head b)"

definition WriteTo :: "Pool \<Rightarrow> hashBuckets \<Rightarrow> Chunk \<Rightarrow> Pool result" where
  "WriteTo p bb c = bind (Chunk_Write p c (concat (map bucketBytes bb))) (\<lambda>(k, p'). Ok p')"

fun decodeBuckets :: "hashBuckets \<Rightarrow> byte list \<Rightarrow> hashBuckets" where
  "decodeBuckets [] bs = []"
| "decodeBuckets (b # bb) bs =
     (case bs of
        [] \<Rightarrow> b # bb
      | t # rest \<Rightarrow> b\<lparr>b_Type := unat t, b_Head := dec64 rest\<rparr> # decodeBuckets bb (drop 8 rest))"

definition ReadFrom :: "Pool \<Rightarrow> hashBuckets \<Rightarrow> Chunk \<Rightarrow> hashBuckets result" where
  "ReadFrom p bb c =
     bind (ReadAll p c) (\<lambda>b.
       if length b \<noteq> sizeHashBuckets then Err (WrongLength sizeHashBuckets (length b))
       else Ok (decodeBuckets bb b))"

text \<open>\<^verbatim>\<open>strconv.FormatInt(pos, 32)\<close>: the digits \<^verbatim>\<open>0-9a-v\<close> as ASCII bytes.\<close>

definition digit32 :: "nat \<Rightarrow> byte" where
  "digit32 d = (if d < 10 then word_of_nat (48 + d) else word_of_nat (87 + d))"

function formatBits32 :: "nat \<Rightarrow> byte list" where
  "formatBits32 n = (if n < 32 then [digit32 n] else formatBits32 (n div 32) @ [digit32 (n mod 32)])"
  by pat_completeness auto
termination
  by (relation "measure id") auto

definition FormatInt32 :: "int \<Rightarrow> byte list" where
  "FormatInt32 i = (if i < 0 then 45 # formatBits32 (nat (- i)) else formatBits32 (nat i))"

text \<open>\<^verbatim>\<open>hash/fnv\<close> \<^verbatim>\<open>New32a\<close>: FNV-1a over 32 bits.\<close>

definition fnv_step :: "32 word \<Rightarrow> byte \<Rightarrow> 32 word" where
  "fnv_step h b = (h XOR ucast b) * 16777619"

definition hashKey :: "byte list \<Rightarrow> 32 word" where
  "hashKey b = foldl fnv_step 2166136261 b"

definition slotOf :: "hashBuckets \<Rightarrow> byte list \<Rightarrow> nat" where
  "slotOf bb key = unat (hashKey (FormatInt32 (pos (b_chunk (bb ! 0))) @ key)) mod HashMapN"

definition bucket :: "hashBuckets \<Rightarrow> byte list \<Rightarrow> hashBucket" where
  "bucket bb key = bb ! slotOf bb key"

text \<open>
  \<^verbatim>\<open>findBucket\<close> returns a pointer to a bucket. The flag of the model's result says
  whether that bucket is an element of the array \<open>bb\<close> itself (and a later change of
  the bucket is a change of \<open>bb\<close>) or of a child array loaded from the pool for this
  call only.
\<close>

fun findBucket :: "nat \<Rightarrow> Pool \<Rightarrow> hashBuckets \<Rightarrow> byte list \<Rightarrow> (hashBucket \<times> bool) result" where
  "findBucket 0 p bb key = Timeout"
| "findBucket (Suc fuel) p bb key =
     (let b = bucket bb key
      in if b_Type b = bucketTypeBuckets then
           bind (Get p (b_Head b)) (\<lambda>c.
             bind (ReadFrom p (newHashBuckets c) c) (\<lambda>newBuckets.
               bind (findBucket fuel p newBuckets key) (\<lambda>(r, own). Ok (r, False))))
         else if b_Type b = bucketTypeList then Ok (b, True)
         else Err (InvalidBucketType (b_Type b)))"

definition store_back :: "hashBuckets \<Rightarrow> bool \<Rightarrow> hashBucket \<Rightarrow> hashBuckets" where
  "store_back bb own b = (if own then bb[b_idx b := b] else bb)"

definition hashBucket_Write :: "Pool \<Rightarrow> hashBucket \<Rightarrow> Pool result" where
  "hashBucket_Write p b =
     bind (WriteAt p (b_chunk b) (bucketBytes b) (int (b_idx b) * int sizeHashBucket)) (\<lambda>(k, p'). Ok p')"

fun findHashMapItem :: "nat \<Rightarrow> Pool \<Rightarrow> KVNode option \<Rightarrow> byte list \<Rightarrow> KVNode option result" where
  "findHashMapItem 0 p node needle = Timeout"
| "findHashMapItem (Suc fuel) p node needle =
     (case node of
        None \<Rightarrow> Ok None
      | Some n \<Rightarrow>
          bind (KeyBytes p n) (\<lambda>key.
            if key = needle then Ok (Some n)
            else bind (KVNode_Next p n) (\<lambda>m. findHashMapItem fuel p m needle)))"

definition hashBucket_findHashMapItem ::
  "nat \<Rightarrow> Pool \<Rightarrow> hashBucket \<Rightarrow> byte list \<Rightarrow> KVNode option result" where
  "hashBucket_findHashMapItem fuel p b needle =
     bind (NewKVNodeFromChunkPtr p (b_Head b)) (\<lambda>head. findHashMapItem fuel p (Some head) needle)"

text \<open>
  \<^verbatim>\<open>hashBucket.Append\<close> with its split, and the loop of the split that appends every
  node of the old list to the new array.
\<close>

fun hashBucket_Append ::
    "nat \<Rightarrow> Pool \<Rightarrow> hashBucket \<Rightarrow> byte list \<Rightarrow> ChunkPtr \<Rightarrow> ChunkPtr \<Rightarrow> (hashBucket \<times> Pool) result"
  and reinsert ::
    "nat \<Rightarrow> Pool \<Rightarrow> hashBuckets \<Rightarrow> KVNode option \<Rightarrow> (hashBuckets \<times> Pool) result"
where
  "hashBucket_Append 0 p b keyBytes key val = Timeout"
| "hashBucket_Append (Suc fuel) p b keyBytes key val =
     (if b_Type b \<noteq> bucketTypeList then Err (CannotAppend (b_Type b))
      else if b_Head b = 0 then
        bind (NewKVNode p key val) (\<lambda>(head, p1).
          let b' = b\<lparr>b_Head := Ptr (kv_chunk head)\<rparr>
          in bind (hashBucket_Write p1 b') (\<lambda>p2. Ok (b', p2)))
      else
        bind (NewKVNodeFromChunkPtr p (b_Head b)) (\<lambda>head.
          bind (ListSize fuel p head) (\<lambda>sz.
            if sz < HashMapMaxList then
              bind (KVNode_Append fuel p head key val) (\<lambda>(nd, p1). Ok (b, p1))
            else
              (case Alloc p (sizeHashBuckets mod 2 ^ 32) of
                 (c, p1) \<Rightarrow>
                   bind (WriteTo p1 (newHashBuckets c) c) (\<lambda>p2.
                     bind (reinsert fuel p2 (newHashBuckets c) (Some head)) (\<lambda>(newBuckets, p3).
                       bind (findBucket fuel p3 newBuckets keyBytes) (\<lambda>(bk, own).
                         bind (hashBucket_Append fuel p3 bk keyBytes key val) (\<lambda>(bk', p4).
                           let b' = b\<lparr>b_Type := bucketTypeBuckets, b_Head := Ptr c\<rparr>
                           in bind (hashBucket_Write p4 b') (\<lambda>p5.
                                bind (DeleteAll fuel p5 head) (\<lambda>p6. Ok (b', p6)))))))))))"
| "reinsert 0 p newBuckets nd = Timeout"
| "reinsert (Suc fuel) p newBuckets nd =
     (case nd of
        None \<Rightarrow> Ok (newBuckets, p)
      | Some node \<Rightarrow>
          bind (KeyBytes p node) (\<lambda>nodeKey.
            bind (findBucket fuel p newBuckets nodeKey) (\<lambda>(bk, own).
              bind (hashBucket_Append fuel p bk nodeKey (kv_key node) (kv_value node)) (\<lambda>(bk', p1).
                bind (KVNode_Next p1 node) (\<lambda>nx.
                  reinsert fuel p1 (store_back newBuckets own bk') nx)))))"

definition hashBucket_Upsert ::
  "nat \<Rightarrow> Pool \<Rightarrow> hashBucket \<Rightarrow> byte list \<Rightarrow> ChunkPtr \<Rightarrow> (hashBucket \<times> Pool) result" where
  "hashBucket_Upsert fuel p b key val =
     (if b_Head b = 0 then
        bind (AllocAndWrite p key) (\<lambda>(keyChunk, p1).
          hashBucket_Append fuel p1 b key (Ptr keyChunk) val)
      else
        bind (hashBucket_findHashMapItem fuel p b key) (\<lambda>node.
          case node of
            None \<Rightarrow>
              bind (AllocAndWrite p key) (\<lambda>(keyChunk, p1).
                hashBucket_Append fuel p1 b key (Ptr keyChunk) val)
          | Some n \<Rightarrow>
              bind (SetValue p n val) (\<lambda>(old, n', p1).
                bind (Get p1 old) (\<lambda>oldChunk. Ok (b, Free p1 oldChunk)))))"

section \<open>Hash map\<close>

record HashMap =
  hm_pool :: Pool
  headBuckets :: hashBuckets
  headBucketsChunk :: Chunk

text \<open>
  \<^verbatim>\<open>NewHashMap\<close> after its call of \<^verbatim>\<open>NewPool\<close>: over a pool without chunks it
  allocates the root array, otherwise it loads the chunk at pointer 0.
\<close>

definition NewHashMapFrom :: "Pool \<Rightarrow> HashMap result" where
  "NewHashMapFrom pool =
     (if Pool_Size pool = 0 then
        (case Alloc pool (sizeHashBuckets mod 2 ^ 32) of
           (c, p1) \<Rightarrow>
             bind (WriteTo p1 (newHashBuckets c) c) (\<lambda>p2.
               Ok \<lparr>hm_pool = p2, headBuckets = newHashBuckets c, headBucketsChunk = c\<rparr>))
      else
        bind (Get pool 0) (\<lambda>c.
          bind (ReadFrom pool (newHashBuckets c) c) (\<lambda>bb.
            Ok \<lparr>hm_pool = pool, headBuckets = bb, headBucketsChunk = c\<rparr>)))"

definition NewHashMap :: "byte list \<Rightarrow> nat list \<Rightarrow> HashMap result" where
  "NewHashMap s sched = bind (NewPool s sched) NewHashMapFrom"

definition HashMap_Delete :: "nat \<Rightarrow> HashMap \<Rightarrow> byte list \<Rightarrow> HashMap result" where
  "HashMap_Delete fuel m key =
     bind (findBucket fuel (hm_pool m) (headBuckets m) key) (\<lambda>(bk, own).
       if b_Head bk = 0 then Err (KeyNotFound key)
       else
         bind (NewKVNodeFromChunkPtr (hm_pool m) (b_Head bk)) (\<lambda>head.
           bind (findHashMapItem fuel (hm_pool m) (Some head) key) (\<lambda>node.
             case node of
               None \<Rightarrow> Err (KeyNotFound key)
             | Some n \<Rightarrow>
                 bind (KVNode_Delete fuel (hm_pool m) n) (\<lambda>(newHead, p1).
                   let bk' = bk\<lparr>b_Head := newHead\<rparr>
                   in bind (hashBucket_Write p1 bk') (\<lambda>p2.
                        Ok (m\<lparr>hm_pool := p2,
                              headBuckets := store_back (headBuckets m) own bk'\<rparr>))))))"

text \<open>
  \<^verbatim>\<open>Load\<close> returns \<^verbatim>\<open>(value, found, err)\<close>: \<open>Ok (Some v)\<close> is \<^verbatim>\<open>(v, true, nil)\<close>,
  \<open>Ok None\<close> is \<^verbatim>\<open>(nil, false, nil)\<close>.
\<close>

definition Load :: "nat \<Rightarrow> HashMap \<Rightarrow> byte list \<Rightarrow> byte list option result" where
  "Load fuel m key =
     bind (findBucket fuel (hm_pool m) (headBuckets m) key) (\<lambda>(bk, own).
       bind (if b_Head bk \<noteq> 0
             then bind (NewKVNodeFromChunkPtr (hm_pool m) (b_Head bk)) (\<lambda>h. Ok (Some h))
             else Ok None) (\<lambda>head.
         bind (findHashMapItem fuel (hm_pool m) head key) (\<lambda>node.
           case node of
             None \<Rightarrow> Ok None
           | Some n \<Rightarrow> bind (ValueBytes (hm_pool m) n) (\<lambda>b. Ok (Some b)))))"

definition Store :: "nat \<Rightarrow> HashMap \<Rightarrow> byte list \<Rightarrow> byte list \<Rightarrow> HashMap result" where
  "Store fuel m key val =
     bind (AllocAndWrite (hm_pool m) val) (\<lambda>(valueChunk, p1).
       bind (findBucket fuel p1 (headBuckets m) key) (\<lambda>(bk, own).
         bind (hashBucket_Upsert fuel p1 bk key (Ptr valueChunk)) (\<lambda>(bk', p2).
           Ok (m\<lparr>hm_pool := p2, headBuckets := store_back (headBuckets m) own bk'\<rparr>))))"

section \<open>Store facade\<close>

text \<open>
  \<^verbatim>\<open>New(f)\<close> opens or creates the block file and then calls
  \<^verbatim>\<open>db.Create("objects")\<close>. \<^verbatim>\<open>BlockDB.Create\<close> returns an object without content
  for a new name, and for a name the file already has it resets the first block to
  \<^verbatim>\<open>End = 0\<close>, \<^verbatim>\<open>Next = 0\<close> and frees the rest. So the stream that \<^verbatim>\<open>New\<close> and
  \<^verbatim>\<open>writeTx.write\<close> hand to \<^verbatim>\<open>NewHashMap\<close> is empty whatever the file held, and the
  model of the store, which takes the calls into the block layer to succeed, needs no
  model of the file. \<open>sched\<close> is the order of map iteration in the new pool.

  \<^verbatim>\<open>path.Join\<close> is a parameter of the model (\<open>join\<close>); values are the JSON bytes that
  \<^verbatim>\<open>json.Marshal\<close> returned.
\<close>

record store =
  buckets :: "(string \<times> HashMap) list"
  bucketsMap :: HashMap

definition bytes_of :: "string \<Rightarrow> byte list" where
  "bytes_of s = map (\<lambda>c. of_nat (of_char c)) s"

definition bucketPath :: "(string \<Rightarrow> string \<Rightarrow> string) \<Rightarrow> string \<Rightarrow> string" where
  "bucketPath join name = join ''bucket'' name"

definition New :: "nat list \<Rightarrow> store result" where
  "New sched = bind (NewHashMap [] sched) (\<lambda>bm. Ok \<lparr>buckets = [], bucketsMap = bm\<rparr>)"

definition readTx_Get ::
  "(string \<Rightarrow> string \<Rightarrow> string) \<Rightarrow> nat \<Rightarrow> store \<Rightarrow> string \<Rightarrow> string \<Rightarrow> byte list result" where
  "readTx_Get join fuel st bkt key =
     (case map_of (buckets st) (bucketPath join bkt) of
        None \<Rightarrow> Err ErrBucketNotFound
      | Some m \<Rightarrow>
          bind (Load fuel m (bytes_of key)) (\<lambda>r.
            case r of None \<Rightarrow> Err ErrKeyNotFound | Some b \<Rightarrow> Ok b))"

definition store_Get ::
  "(string \<Rightarrow> string \<Rightarrow> string) \<Rightarrow> nat \<Rightarrow> store \<Rightarrow> string \<Rightarrow> string \<Rightarrow> byte list result" where
  "store_Get join fuel st bkt key = readTx_Get join fuel st bkt key"

record writeTx =
  writeCache :: "(string \<times> (string \<times> byte list) list) list"
  deleteCache :: "(string \<times> (string \<times> bool) list) list"

definition Writer :: writeTx where
  "Writer = \<lparr>writeCache = [], deleteCache = []\<rparr>"

definition writeTx_Set :: "writeTx \<Rightarrow> string \<Rightarrow> string \<Rightarrow> byte list \<Rightarrow> writeTx" where
  "writeTx_Set tx bkt key payload =
     (let b = (case map_of (writeCache tx) bkt of None \<Rightarrow> [] | Some b \<Rightarrow> b);
          tx1 = tx\<lparr>writeCache := AList.update bkt (AList.update key payload b) (writeCache tx)\<rparr>
      in case map_of (deleteCache tx1) bkt of
           None \<Rightarrow> tx1
         | Some d \<Rightarrow> tx1\<lparr>deleteCache := AList.update bkt (AList.update key False d) (deleteCache tx1)\<rparr>)"

definition writeTx_Delete :: "writeTx \<Rightarrow> string \<Rightarrow> string \<Rightarrow> writeTx" where
  "writeTx_Delete tx bkt key =
     (let d = (case map_of (deleteCache tx) bkt of None \<Rightarrow> [] | Some d \<Rightarrow> d)
      in tx\<lparr>deleteCache := AList.update bkt (AList.update key True d) (deleteCache tx)\<rparr>)"

definition writeTx_write ::
  "(string \<Rightarrow> string \<Rightarrow> string) \<Rightarrow> nat \<Rightarrow> nat list \<Rightarrow> store \<Rightarrow> string \<Rightarrow> string \<Rightarrow> byte list
     \<Rightarrow> store result" where
  "writeTx_write join fuel sched st bkt key payload =
     (case map_of (buckets st) bkt of
        Some m \<Rightarrow>
          bind (Store fuel m (bytes_of key) payload) (\<lambda>m'.
            Ok (st\<lparr>buckets := AList.update bkt m' (buckets st)\<rparr>))
      | None \<Rightarrow>
          bind (NewHashMap [] sched) (\<lambda>m.
            bind (Store fuel (bucketsMap st) (bytes_of bkt) (bytes_of (bucketPath join bkt))) (\<lambda>bm.
              bind (Store fuel m (bytes_of key) payload) (\<lambda>m'.
                Ok (st\<lparr>bucketsMap := bm, buckets := AList.update bkt m' (buckets st)\<rparr>)))))"

text \<open>
  \<^verbatim>\<open>writeTx.Commit\<close>: the writes of every bucket of the write cache that the delete
  cache does not mark, then the marked deletes. Go ranges over both caches in an
  unspecified order; the model takes the order of the lists.
\<close>

definition deleted :: "(string \<times> bool) list option \<Rightarrow> string \<Rightarrow> bool" where
  "deleted dc k = (case dc of None \<Rightarrow> False | Some d \<Rightarrow> (case map_of d k of None \<Rightarrow> False | Some b \<Rightarrow> b))"

fun commitBucket ::
  "(string \<Rightarrow> string \<Rightarrow> string) \<Rightarrow> nat \<Rightarrow> nat list \<Rightarrow> store \<Rightarrow> string \<Rightarrow> (string \<times> bool) list option
     \<Rightarrow> (string \<times> byte list) list \<Rightarrow> store result" where
  "commitBucket join fuel sched st name dc [] = Ok st"
| "commitBucket join fuel sched st name dc ((k, v) # kvs) =
     (if deleted dc k then commitBucket join fuel sched st name dc kvs
      else bind (writeTx_write join fuel sched st name k v) (\<lambda>st'.
             commitBucket join fuel sched st' name dc kvs))"

fun commitWrites ::
  "(string \<Rightarrow> string \<Rightarrow> string) \<Rightarrow> nat \<Rightarrow> nat list \<Rightarrow> store \<Rightarrow> (string \<times> (string \<times> bool) list) list
     \<Rightarrow> (string \<times> (string \<times> byte list) list) list \<Rightarrow> store result" where
  "commitWrites join fuel sched st dcache [] = Ok st"
| "commitWrites join fuel sched st dcache ((name, b) # rest) =
     bind (commitBucket join fuel sched st name (map_of dcache name) b) (\<lambda>st'.
       commitWrites join fuel sched st' dcache rest)"

fun deleteKeys :: "nat \<Rightarrow> store \<Rightarrow> string \<Rightarrow> (string \<times> bool) list \<Rightarrow> store result" where
  "deleteKeys fuel st name [] = Ok st"
| "deleteKeys fuel st name ((k, d) # kds) =
     (if \<not> d then deleteKeys fuel st name kds
      else
        (case map_of (buckets st) name of
           None \<Rightarrow> deleteKeys fuel st name kds
         | Some m \<Rightarrow>
             bind (HashMap_Delete fuel m (bytes_of k)) (\<lambda>m'.
               deleteKeys fuel (st\<lparr>buckets := AList.update name m' (buckets st)\<rparr>) name kds)))"

fun commitDeletes :: "nat \<Rightarrow> store \<Rightarrow> (string \<times> (string \<times> bool) list) list \<Rightarrow> store result" where
  "commitDeletes fuel st [] = Ok st"
| "commitDeletes fuel st ((name, b) # rest) =
     bind (deleteKeys fuel st name b) (\<lambda>st'. commitDeletes fuel st' rest)"

definition Commit ::
  "(string \<Rightarrow> string \<Rightarrow> string) \<Rightarrow> nat \<Rightarrow> nat list \<Rightarrow> store \<Rightarrow> writeTx \<Rightarrow> store result" where
  "Commit join fuel sched st tx =
     bind (commitWrites join fuel sched st (deleteCache tx) (writeCache tx)) (\<lambda>st1.
       commitDeletes fuel st1 (deleteCache tx))"

section \<open>Block layer: objects (block/object.go)\<close>

record BlockMeta =
  bm_pos :: int
  bm_idx :: nat
  bm_End :: nat
  bm_Next :: nat

definition BlockMeta_Size :: nat where
  "BlockMeta_Size = 4 + 4"

text \<open>
  An \<^verbatim>\<open>Object\<close>: its chain of blocks and the cursor. The functions on objects return
  the object (and the block file) together with the result, also when the result is an
  error or the fuel ran out, since the Go methods update the object in place as they go.
\<close>

record Object =
  blocks :: "BlockMeta list"
  offset :: int
  posBlockIdx :: nat
  posBlockOff :: nat

definition Object_size :: "Object \<Rightarrow> int" where
  "Object_size ob = i64 (sum_list (map (\<lambda>b. int (bm_End b)) (blocks ob)))"

fun seekFromRelativeBack :: "nat \<Rightarrow> Object \<Rightarrow> int \<Rightarrow> int result \<times> Object" where
  "seekFromRelativeBack 0 ob off = (Timeout, ob)"
| "seekFromRelativeBack (Suc fuel) ob off =
     (if off = 0 then (Ok (offset ob), ob)
      else if posBlockOff ob = 0 \<and> posBlockIdx ob = 0 then (Err EOF, ob)
      else
        (let canRead = (if off < int (posBlockOff ob) then u32 off else posBlockOff ob);
             ob1 = ob\<lparr>offset := i64 (offset ob - int canRead),
                      posBlockOff := u32 (int (posBlockOff ob) - int canRead)\<rparr>
         in if posBlockOff ob1 = 0 \<and> posBlockIdx ob1 \<noteq> 0 then
              (if posBlockIdx ob1 - 1 < length (blocks ob1) then
                 (let ob2 = ob1\<lparr>posBlockIdx := posBlockIdx ob1 - 1,
                               posBlockOff := bm_End (blocks ob1 ! (posBlockIdx ob1 - 1))\<rparr>
                  in if i64 (off - int canRead) = 0 then (Ok (offset ob2), ob2)
                     else seekFromRelativeBack fuel ob2 (i64 (off - int canRead)))
               else (Err IndexOutOfRange, ob1\<lparr>posBlockIdx := posBlockIdx ob1 - 1\<rparr>))
            else if i64 (off - int canRead) = 0 then (Ok (offset ob1), ob1)
            else seekFromRelativeBack fuel ob1 (i64 (off - int canRead))))"

fun seekFromRelative :: "nat \<Rightarrow> Object \<Rightarrow> int \<Rightarrow> int result \<times> Object" where
  "seekFromRelative 0 ob off = (Timeout, ob)"
| "seekFromRelative (Suc fuel) ob off =
     (if off < 0 then seekFromRelativeBack (Suc fuel) ob (i64 (- 1 * off))
      else if length (blocks ob) \<le> posBlockIdx ob then (Err IndexOutOfRange, ob)
      else
        (let blockMeta = blocks ob ! posBlockIdx ob
         in if off = 0 then (Ok (offset ob), ob)
            else if posBlockOff ob = bm_End blockMeta then (Err EOF, ob)
            else
              (let canRead0 = u32 (int (bm_End blockMeta) - int (posBlockOff ob));
                   canRead = (if off < int canRead0 then u32 off else canRead0);
                   ob1 = ob\<lparr>offset := i64 (offset ob + int canRead),
                            posBlockOff := u32 (int (posBlockOff ob) + int canRead)\<rparr>;
                   ob2 = (if posBlockOff ob1 = bm_End blockMeta \<and> bm_Next blockMeta \<noteq> 0
                          then ob1\<lparr>posBlockIdx := posBlockIdx ob1 + 1, posBlockOff := 0\<rparr>
                          else ob1)
               in if i64 (off - int canRead) = 0 then (Ok (offset ob2), ob2)
                  else seekFromRelative fuel ob2 (i64 (off - int canRead)))))"

definition seekFromStart :: "nat \<Rightarrow> Object \<Rightarrow> int \<Rightarrow> int result \<times> Object" where
  "seekFromStart fuel ob off =
     seekFromRelative fuel (ob\<lparr>offset := 0, posBlockIdx := 0, posBlockOff := 0\<rparr>) off"

definition seekFromEnd :: "nat \<Rightarrow> Object \<Rightarrow> int \<Rightarrow> int result \<times> Object" where
  "seekFromEnd fuel ob off =
     (if blocks ob = [] then (Err IndexOutOfRange, ob\<lparr>offset := Object_size ob\<rparr>)
      else
        seekFromRelativeBack fuel
          (ob\<lparr>offset := Object_size ob,
              posBlockIdx := length (blocks ob) - 1,
              posBlockOff := bm_End (blocks ob ! (length (blocks ob) - 1))\<rparr>) off)"

definition seek :: "nat \<Rightarrow> Object \<Rightarrow> int \<Rightarrow> int \<Rightarrow> int result \<times> Object" where
  "seek fuel ob off whence =
     (if whence = 0 then seekFromStart fuel ob off
      else if whence = 1 then seekFromRelative fuel ob off
      else if whence = 2 then seekFromEnd fuel ob off
      else (Err (UnknownWhence whence), ob))"

definition Seek :: "nat \<Rightarrow> Object \<Rightarrow> int \<Rightarrow> int \<Rightarrow> int result \<times> Object" where
  "Seek fuel ob off whence = seek fuel ob off whence"

section \<open>Block layer: the block file and Object.write (block db, block/meta.go, block/object.go)\<close>

text \<open>
  The block file starts with the header \<^verbatim>\<open>DBMeta\<close> (five 32-bit fields, so \<open>sizeMeta\<close> is
  20), followed by the blocks; block \<open>idx\<close> starts at \<open>sizeMeta + idx * BlockSize\<close> with
  its own header, the fields \<^verbatim>\<open>End\<close> and \<^verbatim>\<open>Next\<close>.

  The model keeps the file in two parts: \<open>f_u32 x\<close> is the 32-bit field stored at the file
  offset \<open>x\<close>, and \<open>f_byte x\<close> the payload byte stored there. The operations on the file
  are taken to succeed. The in-memory \<^verbatim>\<open>DBMeta\<close> is the record \<open>meta\<close>; the code writes the
  fields \<^verbatim>\<open>BlockCount\<close> (offset 12) and \<^verbatim>\<open>FirstFreeBlock\<close> (offset 16) through to the file
  at every change.
\<close>

definition sizeMeta :: int where
  "sizeMeta = 4 + 4 + 4 + 4 + 4"

record DBMeta =
  BlockSize :: nat
  BlockCount :: nat
  FirstFreeBlock :: nat

record BlockDB =
  meta :: DBMeta
  f_u32 :: "int \<Rightarrow> nat"
  f_byte :: "int \<Rightarrow> byte"

definition WriteBlockCount :: "BlockDB \<Rightarrow> BlockDB" where
  "WriteBlockCount db = db\<lparr>f_u32 := (f_u32 db)(4 + 4 + 4 := BlockCount (meta db))\<rparr>"

definition WriteFirstFreeBlock :: "BlockDB \<Rightarrow> BlockDB" where
  "WriteFirstFreeBlock db = db\<lparr>f_u32 := (f_u32 db)(4 + 4 + 4 + 4 := FirstFreeBlock (meta db))\<rparr>"

definition blockPos :: "BlockDB \<Rightarrow> nat \<Rightarrow> int" where
  "blockPos db idx = i64 (sizeMeta + i64 (int idx * int (BlockSize (meta db))))"

text \<open>\<^verbatim>\<open>BlockMeta.ReadFrom\<close>, \<^verbatim>\<open>WriteTo\<close> at the file position \<open>x\<close>; \<^verbatim>\<open>WriteEnd\<close> and
  \<^verbatim>\<open>WriteNext\<close> seek to the block's own position.\<close>

definition BlockMeta_ReadFrom :: "BlockDB \<Rightarrow> int \<Rightarrow> BlockMeta \<Rightarrow> BlockMeta" where
  "BlockMeta_ReadFrom db x m = m\<lparr>bm_End := f_u32 db x, bm_Next := f_u32 db (x + 4)\<rparr>"

definition BlockMeta_WriteTo :: "int \<Rightarrow> BlockMeta \<Rightarrow> BlockDB \<Rightarrow> BlockDB" where
  "BlockMeta_WriteTo x m db = db\<lparr>f_u32 := (f_u32 db)(x := bm_End m, x + 4 := bm_Next m)\<rparr>"

definition BlockMeta_WriteEnd :: "BlockMeta \<Rightarrow> BlockDB \<Rightarrow> BlockDB" where
  "BlockMeta_WriteEnd m db = db\<lparr>f_u32 := (f_u32 db)(bm_pos m := bm_End m)\<rparr>"

definition BlockMeta_WriteNext :: "BlockMeta \<Rightarrow> BlockDB \<Rightarrow> BlockDB" where
  "BlockMeta_WriteNext m db = db\<lparr>f_u32 := (f_u32 db)(i64 (bm_pos m + 4) := bm_Next m)\<rparr>"

definition writeBytes :: "int \<Rightarrow> byte list \<Rightarrow> (int \<Rightarrow> byte) \<Rightarrow> int \<Rightarrow> byte" where
  "writeBytes x bs f = (\<lambda>y. if x \<le> y \<and> y < x + int (length bs) then bs ! nat (y - x) else f y)"

text \<open>
  \<^verbatim>\<open>BlockDB.grow(n, false)\<close>, the call of \<^verbatim>\<open>Object.alloc\<close>: \<open>n\<close> zeroed blocks are
  appended to the file, chained to each other, and returned; they are not put on the
  free list.
\<close>

definition growBlock :: "BlockDB \<Rightarrow> nat \<Rightarrow> nat \<Rightarrow> BlockMeta" where
  "growBlock db n i =
     \<lparr>bm_pos = i64 (i64 (sizeMeta + i64 (int (BlockCount (meta db)) * int (BlockSize (meta db))))
                     + i64 (int i * int (BlockSize (meta db)))),
      bm_idx = u32 (int (BlockCount (meta db)) + int i),
      bm_End = 0,
      bm_Next = (if i = n - 1 then 0 else u32 (int (BlockCount (meta db)) + int i + 1))\<rparr>"

definition grow :: "nat \<Rightarrow> BlockDB \<Rightarrow> BlockMeta list \<times> BlockDB" where
  "grow n db =
     (let startNewBlocks = i64 (sizeMeta + i64 (int (BlockCount (meta db)) * int (BlockSize (meta db))));
          len = int (u32 (int n * int (BlockSize (meta db))));
          db0 = db\<lparr>f_u32 := (\<lambda>x. if startNewBlocks \<le> x \<and> x < startNewBlocks + len then 0
                                  else f_u32 db x),
                   f_byte := (\<lambda>x. if startNewBlocks \<le> x \<and> x < startNewBlocks + len then 0
                                   else f_byte db x)\<rparr>;
          mm = map (growBlock db n) [0 ..< n];
          db1 = foldl (\<lambda>d m. BlockMeta_WriteTo (bm_pos m) m d) db0 mm;
          db2 = db1\<lparr>meta := (meta db1)\<lparr>BlockCount := u32 (int (BlockCount (meta db1)) + int n)\<rparr>\<rparr>
      in (mm, WriteBlockCount db2))"

text \<open>
  \<^verbatim>\<open>Object.alloc\<close>. \<open>takeFree\<close> is its first loop: it follows the free list for at most
  \<open>n\<close> blocks and returns the headers read, the number of blocks still missing and the
  index that follows the last block taken.
\<close>

fun takeFree :: "BlockDB \<Rightarrow> nat \<Rightarrow> nat \<Rightarrow> BlockMeta list \<Rightarrow> BlockMeta list \<times> nat \<times> nat" where
  "takeFree db 0 next newFreeBlocks = (newFreeBlocks, 0, next)"
| "takeFree db (Suc n) next newFreeBlocks =
     (if next = 0 then (newFreeBlocks, Suc n, next)
      else
        (let newBlockMeta = BlockMeta_ReadFrom db (blockPos db next)
                              \<lparr>bm_pos = blockPos db next, bm_idx = next, bm_End = 0, bm_Next = 0\<rparr>
         in takeFree db n (bm_Next newBlockMeta) (newFreeBlocks @ [newBlockMeta])))"

definition allocGrow :: "nat \<Rightarrow> BlockDB \<Rightarrow> Object \<Rightarrow> unit result \<times> BlockDB \<times> Object" where
  "allocGrow n db ob =
     (case grow n db of (bs, db1) \<Rightarrow>
        if blocks ob \<noteq> [] then
          (if bs = [] then (Err IndexOutOfRange, db1, ob)
           else
             (let tail = (last (blocks ob))\<lparr>bm_Next := bm_idx (hd bs)\<rparr>
              in (Ok (), BlockMeta_WriteNext tail db1,
                  ob\<lparr>blocks := butlast (blocks ob) @ [tail] @ bs\<rparr>)))
        else (Ok (), db1, ob\<lparr>blocks := bs\<rparr>))"

definition alloc :: "nat \<Rightarrow> BlockDB \<Rightarrow> Object \<Rightarrow> unit result \<times> BlockDB \<times> Object" where
  "alloc n db ob =
     (case takeFree db n (FirstFreeBlock (meta db)) [] of (newFreeBlocks, n1, next) \<Rightarrow>
        if newFreeBlocks \<noteq> [] then
          (let db1 = WriteFirstFreeBlock (db\<lparr>meta := (meta db)\<lparr>FirstFreeBlock := next\<rparr>\<rparr>);
               lastFree = (last newFreeBlocks)\<lparr>bm_Next := 0\<rparr>;
               db2 = BlockMeta_WriteNext lastFree db1
           in if blocks ob = [] then (Err IndexOutOfRange, db2, ob)
              else
                (let tail = (last (blocks ob))\<lparr>bm_Next := bm_idx (hd newFreeBlocks)\<rparr>;
                     db3 = BlockMeta_WriteNext tail db2;
                     ob1 = ob\<lparr>blocks := butlast (blocks ob) @ [tail] @ butlast newFreeBlocks @ [lastFree]\<rparr>
                 in if n1 = 0 then (Ok (), db3, ob1) else allocGrow n1 db3 ob1))
        else allocGrow n db ob)"

text \<open>
  \<^verbatim>\<open>Object.write\<close>. \<open>write_step\<close> is the body of the function up to its recursive call:
  it returns the number of bytes written and the bytes that remain, and \<open>Object_write\<close>
  is the recursion. \<open>newBlocks\<close> is the number of blocks the code asks of \<^verbatim>\<open>alloc\<close> when
  the current block is full, has no successor and \<open>remaining\<close> bytes are left.
\<close>

definition newBlocks :: "nat \<Rightarrow> nat \<Rightarrow> nat" where
  "newBlocks remaining bs =
     (let n = u32 (int (remaining div bs)) in if n = 0 then 1 else n)"

definition write_step ::
  "BlockDB \<Rightarrow> Object \<Rightarrow> byte list \<Rightarrow> (nat \<times> byte list) result \<times> BlockDB \<times> Object" where
  "write_step db ob p =
     (if length (blocks ob) \<le> posBlockIdx ob then (Err IndexOutOfRange, db, ob)
      else
        (let blockMeta = blocks ob ! posBlockIdx ob;
             room = u32 (int (BlockSize (meta db)) - int BlockMeta_Size);
             canWrite0 = u32 (int room - int (posBlockOff ob));
             canWrite = (if length p < canWrite0 then u32 (int (length p)) else canWrite0);
             db1 = db\<lparr>f_byte := writeBytes (i64 (i64 (bm_pos blockMeta + int BlockMeta_Size)
                                                     + int (posBlockOff ob)))
                                    (take canWrite p) (f_byte db)\<rparr>;
             ob1 = ob\<lparr>offset := i64 (offset ob + int canWrite),
                      posBlockOff := u32 (int (posBlockOff ob) + int canWrite)\<rparr>;
             blockMeta1 = (if bm_End blockMeta < posBlockOff ob1
                           then blockMeta\<lparr>bm_End := posBlockOff ob1\<rparr> else blockMeta);
             db2 = (if bm_End blockMeta < posBlockOff ob1 then BlockMeta_WriteEnd blockMeta1 db1
                    else db1);
             ob2 = ob1\<lparr>blocks := (blocks ob1)[posBlockIdx ob1 := blockMeta1]\<rparr>;
             p1 = drop canWrite p
         in if p1 = [] then (Ok (canWrite, []), db2, ob2)
            else if posBlockOff ob2 = room then
              (if bm_Next blockMeta1 = 0 then
                 (if BlockSize (meta db) = 0 then (Err DivideByZero, db2, ob2)
                  else
                    (case alloc (newBlocks (length p1) (BlockSize (meta db))) db2 ob2 of
                       (Ok u, db3, ob3) \<Rightarrow>
                         (Ok (canWrite, p1), db3,
                          ob3\<lparr>posBlockIdx := posBlockIdx ob3 + 1, posBlockOff := 0\<rparr>)
                     | (Err e, db3, ob3) \<Rightarrow> (Err e, db3, ob3)
                     | (Timeout, db3, ob3) \<Rightarrow> (Timeout, db3, ob3)))
               else (Ok (canWrite, p1), db2,
                     ob2\<lparr>posBlockIdx := posBlockIdx ob2 + 1, posBlockOff := 0\<rparr>))
            else (Ok (canWrite, p1), db2, ob2)))"

fun Object_write :: "nat \<Rightarrow> BlockDB \<Rightarrow> Object \<Rightarrow> byte list \<Rightarrow> nat result \<times> BlockDB \<times> Object" where
  "Object_write 0 db ob p = (Timeout, db, ob)"
| "Object_write (Suc fuel) db ob p =
     (case write_step db ob p of
        (Ok (n, p1), db1, ob1) \<Rightarrow>
          if p1 = [] then (Ok n, db1, ob1)
          else
            (case Object_write fuel db1 ob1 p1 of
               (Ok nnext, db2, ob2) \<Rightarrow> (Ok (n + nnext), db2, ob2)
             | (Err e, db2, ob2) \<Rightarrow> (Err e, db2, ob2)
             | (Timeout, db2, ob2) \<Rightarrow> (Timeout, db2, ob2))
      | (Err e, db1, ob1) \<Rightarrow> (Err e, db1, ob1)
      | (Timeout, db1, ob1) \<Rightarrow> (Timeout, db1, ob1))"

definition Object_Write :: "nat \<Rightarrow> BlockDB \<Rightarrow> Object \<Rightarrow> byte list \<Rightarrow> nat result \<times> BlockDB \<times> Object" where
  "Object_Write fuel db ob p = Object_write fuel db ob p"

text \<open>
  The indices \<open>fs\<close> are a chain of the file from \<open>a\<close> to \<open>b\<close>: \<open>a\<close> is the first of them,
  the \<^verbatim>\<open>Next\<close> field of each on the file is the one that follows, and that of the last
  is \<open>b\<close>; none is 0.
\<close>

fun is_chain :: "BlockDB \<Rightarrow> nat \<Rightarrow> nat list \<Rightarrow> nat \<Rightarrow> bool" where
  "is_chain db a [] b = (a = b)"
| "is_chain db a (i # fs) b = (a = i \<and> i \<noteq> 0 \<and> is_chain db (f_u32 db (blockPos db i + 4)) fs b)"

section \<open>Evaluation and basic facts\<close>

lemma bind_Ok [simp]: "bind (Ok x) k = k x"
  and bind_Err [simp]: "bind (Err e) k = Err e"
  and bind_Timeout [simp]: "bind Timeout k = Timeout"
  by (simp_all add: bind_def)

lemmas chunkAt_simps = chunkAt_def update_conv'

section \<open>Chunk pointers are stable\<close>

lemma pool_inv_empty: "pool_inv (emptyPool s)"
  by (simp add: pool_inv_def emptyPool_def chunkAt_def)

lemma pool_inv_order: "pool_inv p \<Longrightarrow> pool_inv (p\<lparr>order := os\<rparr>)"
  by (simp add: pool_inv_def chunkAt_def)

lemma initialize_inv:
  assumes "pool_inv p" and "initialize p n = (c, p')"
  shows "pool_inv (p'\<lparr>chunks := AList.update (pos c) c (chunks p')\<rparr>)"
proof -
  from assms(2) have c: "c = \<lparr>pos = f_end p, cap = n, size = 0, free = False\<rparr>"
    and p': "p' = p\<lparr>f_end := f_end p + int headerSize + int n,
                     f_data := (f_data p)(f_end p := replicate n 0)\<rparr>"
    by (auto simp: initialize_def Let_def)
  have "0 \<le> f_end p" using assms(1) by (simp add: pool_inv_def)
  moreover have "k + int headerSize + int (cap d) \<le> f_end p \<and> pos d = k \<and> 0 \<le> k"
    if "chunkAt p k = Some d" for k d
    using assms(1) that by (simp add: pool_inv_def)
  ultimately show ?thesis
    unfolding pool_inv_def c p' by (auto simp: headerSize_def chunkAt_simps) fastforce+
qed

lemma Alloc_inv:
  assumes "pool_inv p"
  shows "pool_inv (snd (Alloc p n))"
proof (cases "fitting p n")
  case Nil
  then show ?thesis using initialize_inv [OF assms, of n]
    by (auto simp: Alloc_def split: prod.splits)
next
  case (Cons i js)
  let ?k = "case order p of [] \<Rightarrow> 0 | j # _ \<Rightarrow> j"
  let ?idx = "(i # js) ! (?k mod length (i # js))"
  show ?thesis
  proof (cases "chunkAt p ?idx")
    case None
    from initialize_inv [OF pool_inv_order [OF assms], of "tl (order p)" n] show ?thesis
      using Cons None by (auto simp: Alloc_def Let_def split: prod.splits)
  next
    case (Some c0)
    then show ?thesis using Cons assms
      by (auto simp: Alloc_def Let_def writeHeader_def pool_inv_def chunkAt_simps)
  qed
qed

lemma Alloc_dom:
  "chunkAt p k \<noteq> None \<Longrightarrow> chunkAt (snd (Alloc p n)) k \<noteq> None"
  by (auto simp: Alloc_def Let_def writeHeader_def initialize_def chunkAt_simps
           split: list.splits option.splits prod.splits)

lemma Alloc_known:
  "chunkAt (snd (Alloc p n)) (pos (fst (Alloc p n))) = Some (fst (Alloc p n))"
  by (auto simp: Alloc_def Let_def writeHeader_def initialize_def chunkAt_simps
           split: list.splits option.splits prod.splits)

lemma Alloc_where:
  assumes "pool_inv p"
  shows "pos (fst (Alloc p n)) = f_end p \<or> pos (fst (Alloc p n)) \<in> set (freeChunks p)"
proof (cases "fitting p n")
  case Nil
  then show ?thesis by (auto simp: Alloc_def Let_def initialize_def)
next
  case (Cons i js)
  let ?k = "case order p of [] \<Rightarrow> 0 | j # _ \<Rightarrow> j"
  let ?idx = "(i # js) ! (?k mod length (i # js))"
  have "?idx \<in> set (i # js)" by (rule nth_mem) simp
  then have m: "?idx \<in> set (freeChunks p)" using Cons [symmetric] by (auto simp: fitting_def)
  show ?thesis
  proof (cases "chunkAt p ?idx")
    case None
    then show ?thesis using Cons by (auto simp: Alloc_def Let_def initialize_def)
  next
    case (Some c0)
    then have "pos c0 = ?idx" using assms by (auto simp: pool_inv_def)
    then show ?thesis using Cons Some m by (auto simp: Alloc_def Let_def writeHeader_def chunkAt_simps)
  qed
qed

lemma WriteAt_Ok:
  assumes "WriteAt p h bs off = Ok (n, p')"
  shows "\<exists>c sz. chunkAt p (pos h) = Some c \<and> f_end p \<le> f_end p'
           \<and> (chunks p' = chunks p \<or> chunks p' = AList.update (pos c) (c\<lparr>size := sz\<rparr>) (chunks p))"
proof (cases "chunkAt p (pos h)")
  case None
  then show ?thesis using assms by (simp add: WriteAt_def)
next
  case (Some c)
  let ?p1 = "if i64 (off + int (length bs)) > int (size c)
             then writeHeader p (c\<lparr>size := (length bs mod 2 ^ 32 + nat (off mod 2 ^ 32)) mod 2 ^ 32\<rparr>)
             else p"
  have p1: "f_end ?p1 = f_end p"
    "chunks ?p1 = chunks p \<or> chunks ?p1 = AList.update (pos c)
        (c\<lparr>size := (length bs mod 2 ^ 32 + nat (off mod 2 ^ 32)) mod 2 ^ 32\<rparr>) (chunks p)"
    by (simp_all add: writeHeader_def)
  let ?old = "f_data ?p1 (pos c)"
  from assms Some have "p' = ?p1\<lparr>f_data := (f_data ?p1)(pos c := take (nat off) ?old @ bs
                                                            @ drop (nat off + length bs) ?old)\<rparr>
                        \<or> p' = writeStream ?p1 (i64 (pos c + int headerSize + off)) bs"
    unfolding WriteAt_def Let_def by (auto split: if_splits)
  then have "f_end ?p1 \<le> f_end p' \<and> chunks p' = chunks ?p1"
    by (auto simp: writeStream_def)
  then show ?thesis using Some p1 by metis
qed

lemma apply_op_WriteAt:
  "apply_op p (OpWriteAt ptr bs off) = p
   \<or> (\<exists>c n. Get p ptr = Ok c \<and> WriteAt p c bs off = Ok (n, apply_op p (OpWriteAt ptr bs off)))"
  by (auto split: result.splits)

lemma apply_op_inv: "pool_inv p \<Longrightarrow> pool_inv (apply_op p x)"
proof (cases x)
  case (OpAlloc n)
  assume "pool_inv p" then show ?thesis using OpAlloc by (simp add: Alloc_inv)
next
  case (OpWrite ptr bs)
  assume "pool_inv p" then show ?thesis using OpWrite
    by (auto simp: Get_def Chunk_Write_def writeHeader_def Let_def pool_inv_def chunkAt_simps
             split: option.splits result.splits if_splits)
next
  case (OpWriteAt ptr bs off)
  assume inv: "pool_inv p"
  from apply_op_WriteAt [of p ptr bs off] show ?thesis
  proof
    assume "apply_op p (OpWriteAt ptr bs off) = p"
    then show ?thesis using inv OpWriteAt by simp
  next
    assume "\<exists>c n. Get p ptr = Ok c \<and> WriteAt p c bs off = Ok (n, apply_op p (OpWriteAt ptr bs off))"
    then obtain h n where w: "WriteAt p h bs off = Ok (n, apply_op p (OpWriteAt ptr bs off))" by blast
    from WriteAt_Ok [OF w] obtain c sz where c: "chunkAt p (pos h) = Some c"
      and e: "f_end p \<le> f_end (apply_op p (OpWriteAt ptr bs off))"
      and ch: "chunks (apply_op p (OpWriteAt ptr bs off)) = chunks p
               \<or> chunks (apply_op p (OpWriteAt ptr bs off)) = AList.update (pos c) (c\<lparr>size := sz\<rparr>) (chunks p)"
      by blast
    have pc: "pos c = pos h" "0 \<le> pos h" "pos h + int headerSize + int (cap c) \<le> f_end p"
      using inv c by (auto simp: pool_inv_def)
    from ch have "pool_inv (apply_op p (OpWriteAt ptr bs off))"
    proof
      assume "chunks (apply_op p (OpWriteAt ptr bs off)) = chunks p"
      then show ?thesis using inv e unfolding pool_inv_def chunkAt_def by fastforce
    next
      assume "chunks (apply_op p (OpWriteAt ptr bs off)) = AList.update (pos c) (c\<lparr>size := sz\<rparr>) (chunks p)"
      then show ?thesis using inv e pc unfolding pool_inv_def chunkAt_def
        by (auto simp: update_conv') fastforce+
    qed
    then show ?thesis using OpWriteAt by simp
  qed
next
  case (OpFree ptr)
  assume "pool_inv p" then show ?thesis using OpFree
    by (auto simp: Get_def Free_def freeChunk_def writeHeader_def Let_def pool_inv_def chunkAt_simps
             split: option.splits result.splits if_splits)
qed

lemma apply_op_dom: "chunkAt p k \<noteq> None \<Longrightarrow> chunkAt (apply_op p x) k \<noteq> None"
proof (cases x)
  case (OpAlloc n)
  assume "chunkAt p k \<noteq> None" then show ?thesis using OpAlloc by (simp add: Alloc_dom)
next
  case (OpWrite ptr bs)
  assume "chunkAt p k \<noteq> None" then show ?thesis using OpWrite
    by (auto simp: Get_def Chunk_Write_def writeHeader_def Let_def chunkAt_simps
             split: option.splits result.splits if_splits)
next
  case (OpWriteAt ptr bs off)
  assume k: "chunkAt p k \<noteq> None"
  from apply_op_WriteAt [of p ptr bs off] show ?thesis
  proof
    assume "apply_op p (OpWriteAt ptr bs off) = p"
    then show ?thesis using k OpWriteAt by simp
  next
    assume "\<exists>c n. Get p ptr = Ok c \<and> WriteAt p c bs off = Ok (n, apply_op p (OpWriteAt ptr bs off))"
    then obtain h n where w: "WriteAt p h bs off = Ok (n, apply_op p (OpWriteAt ptr bs off))" by blast
    from WriteAt_Ok [OF w] obtain c sz where
      ch: "chunks (apply_op p (OpWriteAt ptr bs off)) = chunks p
           \<or> chunks (apply_op p (OpWriteAt ptr bs off)) = AList.update (pos c) (c\<lparr>size := sz\<rparr>) (chunks p)"
      by blast
    then have "chunkAt (apply_op p (OpWriteAt ptr bs off)) k \<noteq> None"
      using k by (auto simp: chunkAt_simps)
    then show ?thesis using OpWriteAt by simp
  qed
next
  case (OpFree ptr)
  assume "chunkAt p k \<noteq> None" then show ?thesis using OpFree
    by (auto simp: Get_def Free_def freeChunk_def writeHeader_def Let_def chunkAt_simps
             split: option.splits result.splits if_splits)
qed

lemma run_ops_inv: "pool_inv p \<Longrightarrow> pool_inv (run_ops p xs)"
  by (induction xs arbitrary: p) (simp_all add: apply_op_inv)

lemma run_ops_dom: "chunkAt p k \<noteq> None \<Longrightarrow> chunkAt (run_ops p xs) k \<noteq> None"
proof (induction xs arbitrary: p)
  case Nil
  then show ?case by simp
next
  case (Cons x xs)
  from Cons.prems have "chunkAt (apply_op p x) k \<noteq> None" by (rule apply_op_dom)
  then have "chunkAt (run_ops (apply_op p x) xs) k \<noteq> None" by (rule Cons.IH)
  then show ?case by simp
qed

text \<open>
  C8. In a pool that satisfies the layout invariant, the pointer of the chunk that
  \<open>Alloc\<close> returns resolves, after any further run of Alloc, Write, WriteAt and Free, to a
  chunk at that same position. \<open>Alloc\<close> places the chunk at the end of the backing stream
  or reuses a chunk of the free list where it is, and every position the pool knows stays
  known with its chunk at that position.
\<close>

theorem chunk_ptr_stable:
  assumes "pool_inv p"
  shows "(\<exists>c'. Get (run_ops (snd (Alloc p n)) xs) (Ptr (fst (Alloc p n))) = Ok c'
            \<and> pos c' = pos (fst (Alloc p n)))
       \<and> (pos (fst (Alloc p n)) = f_end p \<or> pos (fst (Alloc p n)) \<in> set (freeChunks p))
       \<and> (\<forall>k. chunkAt (snd (Alloc p n)) k \<noteq> None \<longrightarrow>
             (\<exists>c'. Get (run_ops (snd (Alloc p n)) xs) k = Ok c' \<and> pos c' = k))"
proof -
  let ?p1 = "snd (Alloc p n)" and ?c = "fst (Alloc p n)"
  have inv1: "pool_inv ?p1" using assms by (rule Alloc_inv)
  have inv2: "pool_inv (run_ops ?p1 xs)" using inv1 by (rule run_ops_inv)
  have all: "\<exists>c'. Get (run_ops ?p1 xs) k = Ok c' \<and> pos c' = k" if "chunkAt ?p1 k \<noteq> None" for k
  proof -
    from that have "chunkAt (run_ops ?p1 xs) k \<noteq> None" by (rule run_ops_dom)
    then obtain c' where c': "chunkAt (run_ops ?p1 xs) k = Some c'" by auto
    with inv2 have "pos c' = k" by (auto simp: pool_inv_def)
    with c' show ?thesis by (simp add: Get_def)
  qed
  have "chunkAt ?p1 (pos ?c) \<noteq> None" by (simp add: Alloc_known)
  from all [OF this] have a: "\<exists>c'. Get (run_ops ?p1 xs) (Ptr ?c) = Ok c' \<and> pos c' = pos ?c"
    by (simp add: Ptr_def)
  show ?thesis using a Alloc_where [OF assms, of n] all by blast
qed

theorem chunk_ptr_stable_witness:
  "pool_inv (emptyPool []) \<and>
   (\<exists>c'. Get (run_ops (snd (Alloc (emptyPool []) 3))
                 [OpAlloc 5, OpFree 0, OpAlloc 2, OpWrite 0 [1, 2], OpWriteAt 12 [7] 4])
            (Ptr (fst (Alloc (emptyPool []) 3))) = Ok c'
         \<and> pos c' = pos (fst (Alloc (emptyPool []) 3)))"
  using chunk_ptr_stable [OF pool_inv_empty, of "[]" 3
          "[OpAlloc 5, OpFree 0, OpAlloc 2, OpWrite 0 [1, 2], OpWriteAt 12 [7] 4]"]
  by (simp add: pool_inv_empty)

section \<open>Unknown pointers\<close>

text \<open>
  \<open>Get\<close> of a pointer that is not the position of a chunk the pool knows is the
  not-found error, and it is decided by the map \<open>chunks\<close> alone, whatever the backing
  stream holds. So each dereference of such a pointer in the node and bucket layers is that
  error: \<^verbatim>\<open>Prev\<close> and \<^verbatim>\<open>Next\<close> (where 0 is the nil pointer and is not dereferenced),
  \<^verbatim>\<open>Key\<close>, \<^verbatim>\<open>KeyBytes\<close>, \<^verbatim>\<open>Value\<close>, \<^verbatim>\<open>ValueBytes\<close>, the load of a list head,
  and the descent of \<^verbatim>\<open>findBucket\<close> into a child array. The pointer of a chunk that was
  freed is not such a pointer: see \<open>freed_chunk_is_read_as_node\<close> below.
\<close>

lemma unknown_ptr_is_error:
  assumes "chunkAt p ptr = None"
  shows "Get p ptr = Err (ChunkNotFound ptr)
       \<and> Get (p\<lparr>f_end := e, f_data := d\<rparr>) ptr = Get p ptr
       \<and> (kv_prev n = ptr \<and> ptr \<noteq> 0 \<longrightarrow> KVNode_Prev p n = Err (ChunkNotFound ptr))
       \<and> (kv_next n = ptr \<and> ptr \<noteq> 0 \<longrightarrow> KVNode_Next p n = Err (ChunkNotFound ptr))
       \<and> (kv_key n = ptr \<longrightarrow>
             KVNode_Key p n = Err (ChunkNotFound ptr) \<and> KeyBytes p n = Err (ChunkNotFound ptr))
       \<and> (kv_value n = ptr \<longrightarrow>
             KVNode_Value p n = Err (ChunkNotFound ptr) \<and> ValueBytes p n = Err (ChunkNotFound ptr))
       \<and> NewKVNodeFromChunkPtr p ptr = Err (ChunkNotFound ptr)
       \<and> (b_Type (bucket bb key) = bucketTypeBuckets \<and> b_Head (bucket bb key) = ptr \<longrightarrow>
             findBucket (Suc fuel) p bb key = Err (ChunkNotFound ptr))"
  using assms
  by (simp add: Get_def chunkAt_def KVNode_Prev_def KVNode_Next_def KVNode_Key_def KeyBytes_def
        KVNode_Value_def ValueBytes_def NewKVNodeFromChunkPtr_def Let_def)

lemma unknown_ptr_is_error_at_empty_pool:
  "chunkAt (emptyPool []) 5 = None
   \<and> Get (emptyPool []) 5 = Err (ChunkNotFound 5)
   \<and> KVNode_Prev (emptyPool [])
        \<lparr>kv_chunk = \<lparr>pos = 9, cap = 32, size = 32, free = False\<rparr>,
         kv_prev = 5, kv_next = 5, kv_key = 5, kv_value = 5\<rparr> = Err (ChunkNotFound 5)
   \<and> KVNode_Next (emptyPool [])
        \<lparr>kv_chunk = \<lparr>pos = 9, cap = 32, size = 32, free = False\<rparr>,
         kv_prev = 5, kv_next = 5, kv_key = 5, kv_value = 5\<rparr> = Err (ChunkNotFound 5)
   \<and> KeyBytes (emptyPool [])
        \<lparr>kv_chunk = \<lparr>pos = 9, cap = 32, size = 32, free = False\<rparr>,
         kv_prev = 5, kv_next = 5, kv_key = 5, kv_value = 5\<rparr> = Err (ChunkNotFound 5)
   \<and> ValueBytes (emptyPool [])
        \<lparr>kv_chunk = \<lparr>pos = 9, cap = 32, size = 32, free = False\<rparr>,
         kv_prev = 5, kv_next = 5, kv_key = 5, kv_value = 5\<rparr> = Err (ChunkNotFound 5)
   \<and> findBucket (Suc 0) (emptyPool [])
        (map (\<lambda>i. \<lparr>b_Type = 1, b_Head = 5,
                    b_chunk = \<lparr>pos = 0, cap = 1152, size = 1152, free = False\<rparr>, b_idx = i\<rparr>)
           [0..<128]) [1] = Err (ChunkNotFound 5)"
proof -
  let ?p = "emptyPool []"
  let ?n = "\<lparr>kv_chunk = \<lparr>pos = 9, cap = 32, size = 32, free = False\<rparr>,
            kv_prev = 5, kv_next = 5, kv_key = 5, kv_value = 5\<rparr>"
  let ?bb = "map (\<lambda>i. \<lparr>b_Type = 1, b_Head = 5,
                    b_chunk = \<lparr>pos = 0, cap = 1152, size = 1152, free = False\<rparr>, b_idx = i\<rparr>)
               [0..<128]"
  have h: "chunkAt ?p 5 = None" by (simp add: chunkAt_def emptyPool_def)
  have s: "slotOf ?bb [1] < 128" by (simp add: slotOf_def HashMapN_def)
  have b: "b_Type (bucket ?bb [1]) = bucketTypeBuckets \<and> b_Head (bucket ?bb [1]) = 5"
    using s by (simp add: bucket_def bucketTypeBuckets_def)
  show ?thesis
    using unknown_ptr_is_error [OF h, where n = ?n and bb = ?bb and key = "[1]" and fuel = 0] h b
    by simp
qed

section \<open>Evaluation at concrete inputs\<close>

text \<open>
  The facts below let the simplifier run the model on concrete pools: the calls are
  evaluated in order (\<open>bind_weak_cong\<close> keeps it out of a continuation until the call
  before it has returned), and the 128 entries of a bucket array stay folded.
\<close>

lemma bind_weak_cong: "r = r' \<Longrightarrow> bind r k = bind r' k"
  by simp

lemma length_enc64 [simp]: "length (enc64 x) = 8"
  by (simp add: enc64_def)

lemma length_bucketBytes [simp]: "length (bucketBytes b) = 9"
  by (simp add: bucketBytes_def)

lemma length_concat_bucketBytes [simp]: "length (concat (map bucketBytes bb)) = 9 * length bb"
  by (induction bb) simp_all

lemma length_newHashBuckets [simp]: "length (newHashBuckets c) = 128"
  by (simp add: newHashBuckets_def HashMapN_def)

lemma nth_newHashBuckets [simp]:
  "i < 128 \<Longrightarrow> newHashBuckets c ! i = \<lparr>b_Type = 0, b_Head = 0, b_chunk = c, b_idx = i\<rparr>"
  by (simp add: newHashBuckets_def HashMapN_def)

declare formatBits32.simps [simp del]
declare scanChunks.simps [simp del]

lemmas formatBits32_eval = formatBits32.simps [of 0] formatBits32.simps [of "numeral n"] for n

lemmas fuel_numeral =
  ListSize.simps(2) [of "pred_numeral k", folded numeral_eq_Suc]
  lastNode.simps(2) [of "pred_numeral k", folded numeral_eq_Suc]
  headOf.simps(2) [of "pred_numeral k", folded numeral_eq_Suc]
  deleteLoop.simps(2) [of "pred_numeral k", folded numeral_eq_Suc]
  findBucket.simps(2) [of "pred_numeral k", folded numeral_eq_Suc]
  findHashMapItem.simps(2) [of "pred_numeral k", folded numeral_eq_Suc]
  hashBucket_Append.simps(2) [of "pred_numeral k", folded numeral_eq_Suc]
  reinsert.simps(2) [of "pred_numeral k", folded numeral_eq_Suc]
  for k

lemmas pool_defs = Pool_Size_def emptyPool_def Alloc_def fitting_def initialize_def headerSize_def
  Chunk_Write_def chunkAt_def writeHeader_def Get_def Ptr_def Free_def freeChunk_def WriteAt_def
  ReadAll_def AllocAndWrite_def i64_def

lemmas node_defs = dto_def KVNode_Write_def NewKVNode_def NewKVNodeFromChunk_def
  NewKVNodeFromChunkPtr_def KeyBytes_def ValueBytes_def KVNode_Value_def SetValue_def
  KVNode_Next_def KVNode_Prev_def KVNode_Append_def KVNode_Delete_def DeleteAll_def sizeKVNode_def
  enc64_def dec64_def

lemmas bucket_defs = HashMapN_def HashMapMaxList_def bucketTypeList_def bucketTypeBuckets_def
  sizeHashBucket_def sizeHashBuckets_def WriteTo_def ReadFrom_def FormatInt32_def digit32_def
  fnv_step_def hashKey_def slotOf_def bucket_def store_back_def hashBucket_Write_def
  hashBucket_findHashMapItem_def hashBucket_Upsert_def formatBits32_eval fuel_numeral

lemmas map_defs = NewHashMapFrom_def HashMap_Delete_def Load_def Store_def

lemmas eval_defs = pool_defs node_defs bucket_defs map_defs Let_def

lemma NewPool_empty: "NewPool [] sched = Ok (emptyPool sched)"
  by (simp add: NewPool_def scanChunks.simps readHeaderFrom_def emptyPool_def)

section \<open>Deleting a node that is not the head\<close>

text \<open>
  C3. A list of three nodes \<open>a\<close>, \<open>b\<close>, \<open>c\<close> at the pointers 10, 51 and 92 (the pool
  holds one chunk before them, so that no node lies at pointer 0). \<^verbatim>\<open>Delete\<close> on \<open>b\<close>
  returns the head 10, frees the chunk of \<open>b\<close> alone and sets the \<^verbatim>\<open>Next\<close> of \<open>a\<close> to
  92, but the \<^verbatim>\<open>Prev\<close> of \<open>c\<close> is still 51, the pointer of the freed chunk: the branch
  of \<^verbatim>\<open>KVNode.Delete\<close> for a node that is not the head writes the predecessor only.
\<close>

theorem KVNode_Delete_middle_keeps_successor_prev:
  "(case Alloc (emptyPool []) 1 of
      (c0, p0) \<Rightarrow>
        bind (NewKVNode p0 100 200) (\<lambda>(a, p1).
        bind (KVNode_Append 5 p1 a 101 201) (\<lambda>(b, p2).
        bind (NewKVNodeFromChunkPtr p2 (Ptr (kv_chunk a))) (\<lambda>a'.
        bind (KVNode_Append 5 p2 a' 102 202) (\<lambda>(c, p3).
        bind (NewKVNodeFromChunkPtr p3 (Ptr (kv_chunk b))) (\<lambda>b'.
        bind (KVNode_Delete 5 p3 b') (\<lambda>(newHead, p4).
        bind (NewKVNodeFromChunkPtr p4 (Ptr (kv_chunk a))) (\<lambda>a''.
        bind (NewKVNodeFromChunkPtr p4 (Ptr (kv_chunk c))) (\<lambda>c'.
          Ok (newHead, Ptr (kv_chunk a), Ptr (kv_chunk b), Ptr (kv_chunk c),
              kv_next a'', kv_prev c', freeChunks p4))))))))))
   = Ok (10, 10, 51, 92, 92, 51, [51])"
  by (simp add: eval_defs cong: bind_weak_cong)


section \<open>Runs of hash-map operations\<close>

text \<open>
  C7. The keys \<open>[1, 1]\<close>, \<open>[129, 1]\<close> and \<open>[1, 129]\<close> fall into slot 113 of the root
  array of a new map and form one list. After they are stored, \<^verbatim>\<open>Delete\<close> of the second
  and then of the third key both succeed, and the next \<^verbatim>\<open>Load\<close> of the third key still
  finds it with its value: the second \<^verbatim>\<open>Delete\<close> followed the stale \<^verbatim>\<open>Prev\<close> of the
  third node to the freed second node and unlinked the third node from that one, not from
  the first.
\<close>

theorem Delete_then_Load_still_found:
  "bind (NewHashMap [] []) (\<lambda>m0.
   bind (Store 5 m0 [1, 1] [11]) (\<lambda>m1.
   bind (Store 5 m1 [129, 1] [12]) (\<lambda>m2.
   bind (Store 5 m2 [1, 129] [13]) (\<lambda>m3.
   bind (HashMap_Delete 5 m3 [129, 1]) (\<lambda>m4.
   bind (HashMap_Delete 5 m4 [1, 129]) (\<lambda>m5.
     Load 5 m5 [1, 129]))))))
   = Ok (Some [13])"
  by (simp add: NewHashMap_def NewPool_empty eval_defs cong: bind_weak_cong)

text \<open>
  C2. In a new map, \<^verbatim>\<open>Store\<close> of a key with the empty value, twice, succeeds both times,
  and the next \<^verbatim>\<open>Load\<close> of the key returns the error \<open>EOF\<close>: the second value chunk has
  capacity 0 and is the last chunk of the stream, so \<^verbatim>\<open>Chunk.Read\<close> reads at the end of
  the stream. After the first \<^verbatim>\<open>Store\<close> alone \<^verbatim>\<open>Load\<close> returns the empty value.
\<close>

theorem Store_empty_value_then_Load_is_EOF:
  "bind (NewHashMap [] []) (\<lambda>m0.
   bind (Store 5 m0 [1, 1] []) (\<lambda>m1.
   bind (Store 5 m1 [1, 1] []) (\<lambda>m2.
     Load 5 m2 [1, 1])))
   = Err EOF
   \<and>
   bind (NewHashMap [] []) (\<lambda>m0.
   bind (Store 5 m0 [1, 1] []) (\<lambda>m1.
     Load 5 m1 [1, 1]))
   = Ok (Some [])"
  by (simp add: NewHashMap_def NewPool_empty eval_defs cong: bind_weak_cong)

text \<open>
  C10. A run of \<^verbatim>\<open>Store\<close> and \<^verbatim>\<open>Delete\<close> on a new map after which the chunk at
  pointer 0, the root bucket array, is on the free list. The three keys of slot 113 are
  stored and the second is deleted, which leaves the \<^verbatim>\<open>Prev\<close> of the third node at the
  freed node chunk 1244. The 32 bytes stored next under the key \<open>[2, 2]\<close> reuse that
  chunk; read as a node they have \<^verbatim>\<open>Prev = 0\<close>, the key chunk 1295 of the third key and
  \<^verbatim>\<open>Value = 0\<close>. \<^verbatim>\<open>Delete\<close> of the third key then makes 1244 the head of the list, and
  the last \<^verbatim>\<open>Store\<close> of the third key frees the chunk its \<^verbatim>\<open>Value\<close> names, chunk 0.
  Before that \<^verbatim>\<open>Store\<close> chunk 0 is not free.
\<close>

theorem Store_frees_root_chunk:
  "bind (NewHashMap [] []) (\<lambda>m0.
   bind (Store 5 m0 [1, 1] [11]) (\<lambda>m1.
   bind (Store 5 m1 [129, 1] [12]) (\<lambda>m2.
   bind (Store 5 m2 [1, 129] [13]) (\<lambda>m3.
   bind (HashMap_Delete 5 m3 [129, 1]) (\<lambda>m4.
   bind (Store 5 m4 [2, 2] (enc64 0 @ enc64 0 @ enc64 1295 @ enc64 0)) (\<lambda>m5.
   bind (HashMap_Delete 5 m5 [1, 129]) (\<lambda>m6.
   bind (Store 5 m6 [1, 129] [14]) (\<lambda>m7.
     Ok (Ptr (headBucketsChunk m7),
         chunkAt (hm_pool m6) 0, freeChunks (hm_pool m6),
         chunkAt (hm_pool m7) 0, freeChunks (hm_pool m7))))))))))
   = Ok (0,
         Some \<lparr>pos = 0, cap = 1152, size = 1152, free = False\<rparr>, [1306],
         Some \<lparr>pos = 0, cap = 1152, size = 1152, free = True\<rparr>, [0])"
  by (simp add: NewHashMap_def NewPool_empty eval_defs cong: bind_weak_cong)

section \<open>Reopening a store\<close>

lemma New_Ok: "\<exists>bm. New sched = Ok \<lparr>buckets = [], bucketsMap = bm\<rparr>"
  by (simp add: New_def NewHashMap_def NewPool_empty eval_defs)

text \<open>
  C1. \<^verbatim>\<open>New\<close> returns a store whose map \<^verbatim>\<open>buckets\<close> is empty, so \<^verbatim>\<open>Get\<close> on a store
  that was just opened is \<^verbatim>\<open>ErrBucketNotFound\<close> for every bucket and key, whatever was
  committed to the file before. In particular: a store is opened, the key \<open>k\<close> of bucket
  \<open>foo\<close> is set to the JSON value \<open>1\<close> and the transaction commits without error; the
  store opened next over the same file answers \<^verbatim>\<open>Get("foo", "k")\<close> with
  \<^verbatim>\<open>ErrBucketNotFound\<close>.
\<close>

theorem Get_after_reopen_is_bucket_not_found:
  "bind (New sched) (\<lambda>st. store_Get join fuel st bkt key) = Err ErrBucketNotFound
   \<and> (\<exists>st'. bind (New [])
              (\<lambda>st. Commit (\<lambda>a b. a @ ''/'' @ b) 5 [] st (writeTx_Set Writer ''foo'' ''k'' [49]))
            = Ok st')
   \<and> bind (New []) (\<lambda>st.
       bind (Commit (\<lambda>a b. a @ ''/'' @ b) 5 [] st (writeTx_Set Writer ''foo'' ''k'' [49])) (\<lambda>st'.
       bind (New []) (\<lambda>st2. store_Get (\<lambda>a b. a @ ''/'' @ b) 5 st2 ''foo'' ''k'')))
     = Err ErrBucketNotFound"
proof -
  obtain bm where n: "New sched = Ok \<lparr>buckets = [], bucketsMap = bm\<rparr>"
    using New_Ok by blast
  have a: "bind (New sched) (\<lambda>st. store_Get join fuel st bkt key) = Err ErrBucketNotFound"
    by (simp add: n store_Get_def readTx_Get_def)
  have b: "\<exists>st'. bind (New [])
              (\<lambda>st. Commit (\<lambda>a b. a @ ''/'' @ b) 5 [] st (writeTx_Set Writer ''foo'' ''k'' [49]))
            = Ok st'"
    by (simp add: New_def Commit_def writeTx_Set_def Writer_def deleted_def writeTx_write_def
          bucketPath_def bytes_of_def NewHashMap_def NewPool_empty eval_defs
          cong: bind_weak_cong)
  have c: "bind (New []) (\<lambda>st.
       bind (Commit (\<lambda>a b. a @ ''/'' @ b) 5 [] st (writeTx_Set Writer ''foo'' ''k'' [49])) (\<lambda>st'.
       bind (New []) (\<lambda>st2. store_Get (\<lambda>a b. a @ ''/'' @ b) 5 st2 ''foo'' ''k'')))
     = Err ErrBucketNotFound"
    by (simp add: New_def Commit_def writeTx_Set_def Writer_def deleted_def writeTx_write_def
          bucketPath_def bytes_of_def NewHashMap_def NewPool_empty eval_defs
          store_Get_def readTx_Get_def
          cong: bind_weak_cong)
  show ?thesis
    using a b c by blast
qed

section \<open>Object.Seek\<close>

lemma u32_id: "0 \<le> x \<Longrightarrow> x < 2 ^ 32 \<Longrightarrow> u32 x = nat x"
  by (simp add: u32_def)

lemma i64_id: "- (2 ^ 63) \<le> x \<Longrightarrow> x < 2 ^ 63 \<Longrightarrow> i64 x = x"
  by (simp add: i64_def)

text \<open>
  \<^verbatim>\<open>seekFromRelativeBack\<close> with a negative offset: \<^verbatim>\<open>canRead\<close> is the offset converted to
  \<^verbatim>\<open>uint32\<close>. For the offset \<open>- 2 ^ 32\<close> that is 0: the call
  changes neither the cursor nor the offset, and recurses: whatever the fuel, it runs out.
\<close>

lemma seekFromRelativeBack_stuck:
  "0 < posBlockOff ob \<Longrightarrow> posBlockOff ob < 2 ^ 32 \<Longrightarrow>
   fst (seekFromRelativeBack fuel ob (- 4294967296)) = Timeout"
proof (induction fuel arbitrary: ob)
  case 0
  then show ?case by simp
next
  case (Suc fuel)
  let ?ob1 = "ob\<lparr>offset := i64 (offset ob), posBlockOff := posBlockOff ob\<rparr>"
  have u: "u32 (- 4294967296) = 0" by (simp add: u32_def)
  have v: "u32 (int (posBlockOff ob)) = posBlockOff ob" using Suc.prems by (simp add: u32_id)
  have i: "i64 (- 4294967296) = - 4294967296" by (simp add: i64_def)
  have step: "seekFromRelativeBack (Suc fuel) ob (- 4294967296) =
              seekFromRelativeBack fuel ?ob1 (- 4294967296)"
    using Suc.prems by (simp add: Let_def u v i)
  have "fst (seekFromRelativeBack fuel ?ob1 (- 4294967296)) = Timeout"
    using Suc.prems by (intro Suc.IH) simp_all
  then show ?case unfolding step .
qed

text \<open>
  C4. Two runs on well-formed objects where \<^verbatim>\<open>Seek\<close> is not a stream seek, whichever way
  the offset of \<^verbatim>\<open>SeekEnd\<close> is counted.
  \<^item> \<^verbatim>\<open>Seek(-1, SeekEnd)\<close> on an object of one block and 26 bytes: the target, one byte
    before the end, is inside the object, and the call does not return. In the model
    the result is \<open>Timeout\<close> for every fuel.
  \<^item> An object of two blocks of 10 and 5 bytes. \<^verbatim>\<open>Seek(5, SeekEnd)\<close> returns 10 and leaves
    the cursor at the end of the first block, \<open>(0, 10)\<close>. From there
    \<^verbatim>\<open>Seek(1, SeekCurrent)\<close> is \<open>EOF\<close>, although the target 11 is inside the 15 bytes of
    the object, and \<^verbatim>\<open>Seek(11, SeekStart)\<close> from the same object returns 11.
\<close>

theorem Seek_not_a_stream_seek:
  "fst (Seek fuel \<lparr>blocks = [\<lparr>bm_pos = 20, bm_idx = 0, bm_End = 26, bm_Next = 0\<rparr>],
                   offset = 0, posBlockIdx = 0, posBlockOff = 0\<rparr> (- 1) 2) = Timeout
   \<and> Object_size \<lparr>blocks = [\<lparr>bm_pos = 20, bm_idx = 0, bm_End = 10, bm_Next = 1\<rparr>,
                              \<lparr>bm_pos = 38, bm_idx = 1, bm_End = 5, bm_Next = 0\<rparr>],
                    offset = 0, posBlockIdx = 0, posBlockOff = 0\<rparr> = 15
   \<and> fst (Seek 6 \<lparr>blocks = [\<lparr>bm_pos = 20, bm_idx = 0, bm_End = 10, bm_Next = 1\<rparr>,
                              \<lparr>bm_pos = 38, bm_idx = 1, bm_End = 5, bm_Next = 0\<rparr>],
                    offset = 0, posBlockIdx = 0, posBlockOff = 0\<rparr> 5 2) = Ok 10
   \<and> posBlockIdx (snd (Seek 6 \<lparr>blocks = [\<lparr>bm_pos = 20, bm_idx = 0, bm_End = 10, bm_Next = 1\<rparr>,
                              \<lparr>bm_pos = 38, bm_idx = 1, bm_End = 5, bm_Next = 0\<rparr>],
                    offset = 0, posBlockIdx = 0, posBlockOff = 0\<rparr> 5 2)) = 0
   \<and> posBlockOff (snd (Seek 6 \<lparr>blocks = [\<lparr>bm_pos = 20, bm_idx = 0, bm_End = 10, bm_Next = 1\<rparr>,
                              \<lparr>bm_pos = 38, bm_idx = 1, bm_End = 5, bm_Next = 0\<rparr>],
                    offset = 0, posBlockIdx = 0, posBlockOff = 0\<rparr> 5 2)) = 10
   \<and> fst (Seek 6 (snd (Seek 6 \<lparr>blocks = [\<lparr>bm_pos = 20, bm_idx = 0, bm_End = 10, bm_Next = 1\<rparr>,
                              \<lparr>bm_pos = 38, bm_idx = 1, bm_End = 5, bm_Next = 0\<rparr>],
                    offset = 0, posBlockIdx = 0, posBlockOff = 0\<rparr> 5 2)) 1 1) = Err EOF
   \<and> fst (Seek 6 (snd (Seek 6 \<lparr>blocks = [\<lparr>bm_pos = 20, bm_idx = 0, bm_End = 10, bm_Next = 1\<rparr>,
                              \<lparr>bm_pos = 38, bm_idx = 1, bm_End = 5, bm_Next = 0\<rparr>],
                    offset = 0, posBlockIdx = 0, posBlockOff = 0\<rparr> 5 2)) 11 0) = Ok 11"
proof -
  let ?ob = "\<lparr>blocks = [\<lparr>bm_pos = 20, bm_idx = 0, bm_End = 26, bm_Next = 0\<rparr>],
              offset = 0, posBlockIdx = 0, posBlockOff = 0\<rparr>"
  have stuck: "fst (Seek fuel ?ob (- 1) 2) = Timeout"
  proof (cases fuel)
    case 0
    then show ?thesis by (simp add: Seek_def seek_def seekFromEnd_def)
  next
    case (Suc f)
    have "Seek (Suc f) ?ob (- 1) 2 =
          seekFromRelativeBack f
            (?ob\<lparr>offset := i64 (Object_size ?ob - 4294967295), posBlockOff := 27\<rparr>) (- 4294967296)"
      by (simp add: Seek_def seek_def seekFromEnd_def Let_def u32_def i64_def Object_size_def)
    then show ?thesis using Suc by (simp add: seekFromRelativeBack_stuck)
  qed
  show ?thesis
    apply (rule conjI)
    subgoal by (rule stuck)
    subgoal
      by (simp add: Seek_def seek_def seekFromEnd_def seekFromStart_def Object_size_def i64_def
          u32_def Let_def
          seekFromRelativeBack.simps(2) [of "pred_numeral k" for k, folded numeral_eq_Suc]
          seekFromRelative.simps(2) [of "pred_numeral k" for k, folded numeral_eq_Suc])
    done
qed

section \<open>Object.write and Object.alloc\<close>

lemma i64_id_nn: "0 \<le> x \<Longrightarrow> x < 2 ^ 63 \<Longrightarrow> i64 x = x"
  by (rule i64_id) simp_all

lemma blockPos_id:
  "sizeMeta + int i * int (BlockSize (meta db)) < 2 ^ 63 \<Longrightarrow>
   blockPos db i = sizeMeta + int i * int (BlockSize (meta db))"
proof -
  assume a: "sizeMeta + int i * int (BlockSize (meta db)) < 2 ^ 63"
  have 1: "i64 (int i * int (BlockSize (meta db))) = int i * int (BlockSize (meta db))"
    using a by (intro i64_id_nn) (simp_all add: sizeMeta_def)
  show ?thesis unfolding blockPos_def 1 using a by (intro i64_id_nn) (simp_all add: sizeMeta_def)
qed

lemma takeFree_chain:
  "is_chain db a fs nx \<Longrightarrow> length fs \<le> n \<Longrightarrow> (length fs < n \<Longrightarrow> nx = 0) \<Longrightarrow>
   takeFree db n a acc =
     (acc @ map (\<lambda>i. \<lparr>bm_pos = blockPos db i, bm_idx = i, bm_End = f_u32 db (blockPos db i),
                       bm_Next = f_u32 db (blockPos db i + 4)\<rparr>) fs,
      n - length fs, nx)"
proof (induction fs arbitrary: n a acc)
  case Nil
  then show ?case by (cases n) auto
next
  case (Cons i fs)
  then obtain m where n: "n = Suc m" by (cases n) auto
  from Cons.prems have a: "a = i" "i \<noteq> 0" "is_chain db (f_u32 db (blockPos db i + 4)) fs nx"
    by auto
  have "takeFree db m (f_u32 db (blockPos db i + 4))
          (acc @ [\<lparr>bm_pos = blockPos db i, bm_idx = i, bm_End = f_u32 db (blockPos db i),
                       bm_Next = f_u32 db (blockPos db i + 4)\<rparr>]) =
        ((acc @ [\<lparr>bm_pos = blockPos db i, bm_idx = i, bm_End = f_u32 db (blockPos db i),
                       bm_Next = f_u32 db (blockPos db i + 4)\<rparr>]) @
          map (\<lambda>i. \<lparr>bm_pos = blockPos db i, bm_idx = i, bm_End = f_u32 db (blockPos db i),
                       bm_Next = f_u32 db (blockPos db i + 4)\<rparr>) fs, m - length fs, nx)"
    using Cons.prems n by (intro Cons.IH [OF a(3)]) auto
  then show ?case using a n by (simp add: BlockMeta_ReadFrom_def)
qed

lemma is_chain_Next:
  "is_chain db a fs nx \<Longrightarrow> fs \<noteq> [] \<Longrightarrow>
   a = hd fs \<and> map (\<lambda>i. f_u32 db (blockPos db i + 4)) fs = tl fs @ [nx]"
proof (induction fs arbitrary: a)
  case Nil
  then show ?case by simp
next
  case (Cons i fs)
  then show ?case by (cases fs) auto
qed

lemma foldl_WriteTo_meta:
  "meta (foldl (\<lambda>d m. BlockMeta_WriteTo (bm_pos m) m d) d mm) = meta d"
  by (induction mm arbitrary: d) (simp_all add: BlockMeta_WriteTo_def)

lemma foldl_WriteTo_other:
  "(\<And>m. m \<in> set mm \<Longrightarrow> x \<noteq> bm_pos m \<and> x \<noteq> bm_pos m + 4) \<Longrightarrow>
   f_u32 (foldl (\<lambda>d m. BlockMeta_WriteTo (bm_pos m) m d) d mm) x = f_u32 d x"
  by (induction mm arbitrary: d) (simp_all add: BlockMeta_WriteTo_def)

lemma growBlock_id:
  assumes "int (BlockCount (meta db)) + int n < 2 ^ 32"
    and "sizeMeta + (int (BlockCount (meta db)) + int n) * int (BlockSize (meta db)) < 2 ^ 63"
    and "i < n"
  shows "growBlock db n i =
     \<lparr>bm_pos = sizeMeta + (int (BlockCount (meta db)) + int i) * int (BlockSize (meta db)),
      bm_idx = BlockCount (meta db) + i, bm_End = 0,
      bm_Next = (if i = n - 1 then 0 else BlockCount (meta db) + i + 1)\<rparr>"
proof -
  let ?B = "int (BlockSize (meta db))" and ?C = "int (BlockCount (meta db))"
  have le: "(?C + int i) * ?B \<le> (?C + int n) * ?B"
    using assms(3) by (intro mult_right_mono) auto
  have le0: "?C * ?B \<le> (?C + int i) * ?B" by (intro mult_right_mono) auto
  have le1: "int i * ?B \<le> (?C + int i) * ?B" by (intro mult_right_mono) auto
  have b: "(?C + int n) * ?B < 2 ^ 63" using assms(2) by (simp add: sizeMeta_def)
  have nn: "0 \<le> ?C * ?B" "0 \<le> int i * ?B" by simp_all
  have 1: "i64 (?C * ?B) = ?C * ?B" using le le0 b by (intro i64_id_nn) simp_all
  have 2: "i64 (sizeMeta + ?C * ?B) = sizeMeta + ?C * ?B"
    using le le0 assms(2) by (intro i64_id_nn) (simp_all add: sizeMeta_def)
  have 3: "i64 (int i * ?B) = int i * ?B" using le le1 b by (intro i64_id_nn) simp_all
  have 4: "i64 (sizeMeta + ?C * ?B + int i * ?B) = sizeMeta + (?C + int i) * ?B"
    using le assms(2) by (subst i64_id_nn) (simp_all add: sizeMeta_def algebra_simps)
  have 5: "u32 (?C + int i) = BlockCount (meta db) + i"
    using assms(1,3) by (subst u32_id) (auto simp: nat_add_distrib)
  have 6: "i \<noteq> n - 1 \<Longrightarrow> u32 (?C + int i + 1) = BlockCount (meta db) + i + 1"
    using assms(1,3) by (subst u32_id) (auto simp: nat_add_distrib)
  show ?thesis by (simp add: growBlock_def 1 2 3 4 5 6)
qed


lemma grow_spec:
  assumes c: "int (BlockCount (meta db)) + int n < 2 ^ 32"
    and b: "sizeMeta + (int (BlockCount (meta db)) + int n) * int (BlockSize (meta db)) < 2 ^ 63"
  shows "fst (grow n db) =
           map (\<lambda>i. \<lparr>bm_pos = sizeMeta + (int (BlockCount (meta db)) + int i) * int (BlockSize (meta db)),
                       bm_idx = BlockCount (meta db) + i, bm_End = 0,
                       bm_Next = (if i = n - 1 then 0 else BlockCount (meta db) + i + 1)\<rparr>) [0 ..< n]"
    and "meta (snd (grow n db)) = (meta db)\<lparr>BlockCount := BlockCount (meta db) + n\<rparr>"
    and "x < sizeMeta + int (BlockCount (meta db)) * int (BlockSize (meta db)) \<Longrightarrow> x \<noteq> 12 \<Longrightarrow>
           f_u32 (snd (grow n db)) x = f_u32 db x"
proof -
  let ?B = "int (BlockSize (meta db))" and ?C = "int (BlockCount (meta db))"
  have mm: "map (growBlock db n) [0 ..< n] =
           map (\<lambda>i. \<lparr>bm_pos = sizeMeta + (?C + int i) * ?B,
                       bm_idx = BlockCount (meta db) + i, bm_End = 0,
                       bm_Next = (if i = n - 1 then 0 else BlockCount (meta db) + i + 1)\<rparr>) [0 ..< n]"
    by (rule map_cong [OF refl]) (simp add: growBlock_id [OF c b])
  show "fst (grow n db) =
           map (\<lambda>i. \<lparr>bm_pos = sizeMeta + (?C + int i) * ?B,
                       bm_idx = BlockCount (meta db) + i, bm_End = 0,
                       bm_Next = (if i = n - 1 then 0 else BlockCount (meta db) + i + 1)\<rparr>) [0 ..< n]"
    using mm by (simp add: grow_def Let_def)
  have u: "u32 (?C + int n) = BlockCount (meta db) + n"
    using c by (subst u32_id) (auto simp: nat_add_distrib)
  show "meta (snd (grow n db)) = (meta db)\<lparr>BlockCount := BlockCount (meta db) + n\<rparr>"
    by (simp add: grow_def Let_def WriteBlockCount_def foldl_WriteTo_meta u)
  assume x: "x < sizeMeta + ?C * ?B" "x \<noteq> 12"
  have le: "?C * ?B \<le> (?C + int n) * ?B" by (intro mult_right_mono) auto
  have 1: "i64 (?C * ?B) = ?C * ?B" using le b by (intro i64_id_nn) (simp_all add: sizeMeta_def)
  have 2: "i64 (sizeMeta + ?C * ?B) = sizeMeta + ?C * ?B"
    using le b by (intro i64_id_nn) (simp_all add: sizeMeta_def)
  have other: "x \<noteq> bm_pos m \<and> x \<noteq> bm_pos m + 4" if "m \<in> set (map (growBlock db n) [0 ..< n])" for m
  proof -
    from that obtain i where i: "i < n" "m = growBlock db n i" by auto
    have "?C * ?B \<le> (?C + int i) * ?B" by (intro mult_right_mono) auto
    then show ?thesis using x i by (simp add: growBlock_id [OF c b])
  qed
  have "f_u32 (foldl (\<lambda>d m. BlockMeta_WriteTo (bm_pos m) m d) d0 (map (growBlock db n) [0 ..< n])) x
          = f_u32 d0 x" for d0
    by (rule foldl_WriteTo_other) (rule other)
  then show "f_u32 (snd (grow n db)) x = f_u32 db x"
    using x by (simp add: grow_def Let_def WriteBlockCount_def 1 2)
qed

lemma map_plus_upt: "map ((+) c) [0 ..< n] = [c ..< c + n]"
  by (induction n) simp_all

lemma grow_lists:
  assumes c: "int (BlockCount (meta db)) + int n < 2 ^ 32"
    and b: "sizeMeta + (int (BlockCount (meta db)) + int n) * int (BlockSize (meta db)) < 2 ^ 63"
    and n: "0 < n"
  shows "map bm_idx (fst (grow n db)) = [BlockCount (meta db) ..< BlockCount (meta db) + n]"
    and "map bm_Next (fst (grow n db)) = tl [BlockCount (meta db) ..< BlockCount (meta db) + n] @ [0]"
    and "fst (grow n db) \<noteq> []"
    and "bm_idx (hd (fst (grow n db))) = BlockCount (meta db)"
proof -
  let ?C = "BlockCount (meta db)"
  show 1: "map bm_idx (fst (grow n db)) = [?C ..< ?C + n]"
    unfolding grow_spec(1) [OF c b] by (simp add: o_def map_plus_upt)
  show 3: "fst (grow n db) \<noteq> []" using n unfolding grow_spec(1) [OF c b] by simp
  show "bm_idx (hd (fst (grow n db))) = ?C"
    using 1 3 n by (metis hd_map hd_upt less_add_same_cancel1)
  have "map bm_Next (fst (grow n db)) = map (\<lambda>i. if i = n - 1 then 0 else ?C + i + 1) [0 ..< n]"
    unfolding grow_spec(1) [OF c b] by (simp add: o_def)
  also have "\<dots> = tl [?C ..< ?C + n] @ [0]"
  proof (rule nth_equalityI)
    show "length (map (\<lambda>i. if i = n - 1 then 0 else ?C + i + 1) [0 ..< n]) = length (tl [?C ..< ?C + n] @ [0])"
      using n by simp
  next
    fix i assume "i < length (map (\<lambda>i. if i = n - 1 then 0 else ?C + i + 1) [0 ..< n])"
    then have i: "i < n" by simp
    show "map (\<lambda>i. if i = n - 1 then 0 else ?C + i + 1) [0 ..< n] ! i = (tl [?C ..< ?C + n] @ [0]) ! i"
    proof (cases "i = n - 1")
      case True
      then show ?thesis using i by (simp add: nth_append)
    next
      case False
      then have "i < n - 1" using i by simp
      then show ?thesis using i by (simp add: nth_append nth_tl)
    qed
  qed
  finally show "map bm_Next (fst (grow n db)) = tl [?C ..< ?C + n] @ [0]" .
qed

lemma pos_facts:
  assumes b: "sizeMeta + (int C + int n) * int B < 2 ^ 63" and B: "4 < B" and i: "i < C"
  shows "sizeMeta + int i * int B + 4 < sizeMeta + int C * int B"
    and "sizeMeta + int i * int B < 2 ^ 63"
    and "i64 (sizeMeta + int i * int B + 4) = sizeMeta + int i * int B + 4"
    and "sizeMeta + int C * int B < 2 ^ 63"
proof -
  have "int (Suc i) * int B \<le> int C * int B" using i by (intro mult_right_mono) auto
  then show 1: "sizeMeta + int i * int B + 4 < sizeMeta + int C * int B"
    using B by (simp add: algebra_simps)
  have "int C * int B \<le> (int C + int n) * int B" by (intro mult_right_mono) auto
  then show 2: "sizeMeta + int C * int B < 2 ^ 63" using b by simp
  show "sizeMeta + int i * int B < 2 ^ 63" using 1 2 by simp
  show "i64 (sizeMeta + int i * int B + 4) = sizeMeta + int i * int B + 4"
    using 1 2 by (intro i64_id_nn) (simp_all add: sizeMeta_def)
qed

lemma allocGrow_spec:
  assumes ne: "blocks ob \<noteq> []" and n: "0 < n"
    and c: "int (BlockCount (meta db)) + int n < 2 ^ 32"
    and b: "sizeMeta + (int (BlockCount (meta db)) + int n) * int (BlockSize (meta db)) < 2 ^ 63"
    and tp: "bm_pos (last (blocks ob)) = sizeMeta + int t * int (BlockSize (meta db))"
    and t: "t < BlockCount (meta db)"
    and B: "4 < BlockSize (meta db)"
  shows "\<exists>db' bs. allocGrow n db ob =
            (Ok (), db', ob\<lparr>blocks := butlast (blocks ob)
                 @ [(last (blocks ob))\<lparr>bm_Next := BlockCount (meta db)\<rparr>] @ bs\<rparr>)
          \<and> map bm_idx bs = [BlockCount (meta db) ..< BlockCount (meta db) + n]
          \<and> map bm_Next bs = tl [BlockCount (meta db) ..< BlockCount (meta db) + n] @ [0]
          \<and> f_u32 db' (bm_pos (last (blocks ob)) + 4) = BlockCount (meta db)
          \<and> (\<forall>x. x < sizeMeta + int (BlockCount (meta db)) * int (BlockSize (meta db))
                   \<longrightarrow> x \<noteq> 12 \<longrightarrow> x \<noteq> bm_pos (last (blocks ob)) + 4 \<longrightarrow> f_u32 db' x = f_u32 db x)
          \<and> meta db' = (meta db)\<lparr>BlockCount := BlockCount (meta db) + n\<rparr>"
proof -
  obtain bs db1 where g: "grow n db = (bs, db1)" by (cases "grow n db")
  note gs = grow_spec [OF c b, unfolded g fst_conv snd_conv]
    and gl = grow_lists [OF c b n, unfolded g fst_conv snd_conv]
  note pf = pos_facts [OF b B t]
  let ?tail = "(last (blocks ob))\<lparr>bm_Next := BlockCount (meta db)\<rparr>"
  have ag: "allocGrow n db ob =
      (Ok (), BlockMeta_WriteNext ?tail db1, ob\<lparr>blocks := butlast (blocks ob) @ [?tail] @ bs\<rparr>)"
    using ne gl by (simp add: allocGrow_def g Let_def)
  have w: "i64 (bm_pos (last (blocks ob)) + 4) = bm_pos (last (blocks ob)) + 4"
    using pf(3) tp by simp
  show ?thesis
    apply (rule exI [of _ "BlockMeta_WriteNext ?tail db1"])
    apply (rule exI [of _ bs])
    apply (intro conjI)
    subgoal by (rule ag)
    subgoal by (rule gl(1))
    subgoal by (rule gl(2))
    subgoal by (simp add: BlockMeta_WriteNext_def w)
    subgoal by (simp add: BlockMeta_WriteNext_def w gs(3))
    subgoal by (simp add: BlockMeta_WriteNext_def gs(2))
    done
qed

lemma meta_simps:
  "meta (BlockMeta_WriteNext m d) = meta d"
  "meta (BlockMeta_WriteEnd m d) = meta d"
  "meta (WriteFirstFreeBlock d) = meta d"
  by (simp_all add: BlockMeta_WriteNext_def BlockMeta_WriteEnd_def WriteFirstFreeBlock_def)

lemma alloc_spec:
  assumes chain: "is_chain db (FirstFreeBlock (meta db)) fs nx"
    and len: "length fs \<le> n" and short: "length fs < n \<Longrightarrow> nx = 0" and n: "0 < n"
    and ne: "blocks ob \<noteq> []"
    and tp: "bm_pos (last (blocks ob)) = blockPos db t" and t: "t < BlockCount (meta db)"
    and fsC: "\<And>i. i \<in> set fs \<Longrightarrow> i < BlockCount (meta db) \<and> i \<noteq> t"
    and B: "4 < BlockSize (meta db)"
    and c: "int (BlockCount (meta db)) + int n < 2 ^ 32"
    and b: "sizeMeta + (int (BlockCount (meta db)) + int n) * int (BlockSize (meta db)) < 2 ^ 63"
  shows "\<exists>db' nb. alloc n db ob =
            (Ok (), db', ob\<lparr>blocks := butlast (blocks ob)
                 @ [(last (blocks ob))\<lparr>bm_Next := hd (map bm_idx nb)\<rparr>] @ nb\<rparr>)
          \<and> map bm_idx nb = fs @ [BlockCount (meta db) ..< BlockCount (meta db) + (n - length fs)]
          \<and> map bm_Next nb = tl (map bm_idx nb) @ [0]
          \<and> f_u32 db' (bm_pos (last (blocks ob)) + 4) = hd (map bm_idx nb)
          \<and> FirstFreeBlock (meta db') = nx
          \<and> BlockCount (meta db') = BlockCount (meta db) + (n - length fs)
          \<and> BlockSize (meta db') = BlockSize (meta db)"
proof -
  let ?B = "BlockSize (meta db)" and ?C = "BlockCount (meta db)"
  let ?P = "\<lambda>i. sizeMeta + int i * int ?B"
  let ?rd = "\<lambda>i. \<lparr>bm_pos = blockPos db i, bm_idx = i, bm_End = f_u32 db (blockPos db i),
                       bm_Next = f_u32 db (blockPos db i + 4)\<rparr>"
  note pt = pos_facts [OF b B t]
  have tP: "bm_pos (last (blocks ob)) = ?P t" using tp blockPos_id [OF pt(2)] by simp
  have tf: "takeFree db n (FirstFreeBlock (meta db)) [] = (map ?rd fs, n - length fs, nx)"
    using takeFree_chain [OF chain len short, of "[]"] by simp
  show ?thesis
  proof (cases "fs = []")
    case True
    then have nx: "FirstFreeBlock (meta db) = nx" using chain by simp
    from allocGrow_spec [OF ne n c b tP t B]
    obtain db' bs where ag: "allocGrow n db ob =
            (Ok (), db', ob\<lparr>blocks := butlast (blocks ob) @ [(last (blocks ob))\<lparr>bm_Next := ?C\<rparr>] @ bs\<rparr>)"
      and bs: "map bm_idx bs = [?C ..< ?C + n]" "map bm_Next bs = tl [?C ..< ?C + n] @ [0]"
      and d: "f_u32 db' (bm_pos (last (blocks ob)) + 4) = ?C"
      and m: "meta db' = (meta db)\<lparr>BlockCount := ?C + n\<rparr>"
      by blast
    have hd: "hd [?C ..< ?C + n] = ?C" using n by simp
    have al: "alloc n db ob = allocGrow n db ob" using True by (simp add: alloc_def tf)
    show ?thesis
      apply (rule exI [of _ db'])
      apply (rule exI [of _ bs])
      using True nx by (simp add: al ag hd bs d m)
  next
    case False
    note ic = is_chain_Next [OF chain False]
    let ?lastFree = "(?rd (last fs))\<lparr>bm_Next := 0\<rparr>"
    let ?db1 = "WriteFirstFreeBlock (db\<lparr>meta := (meta db)\<lparr>FirstFreeBlock := nx\<rparr>\<rparr>)"
    let ?db2 = "BlockMeta_WriteNext ?lastFree ?db1"
    let ?tail = "(last (blocks ob))\<lparr>bm_Next := hd fs\<rparr>"
    let ?db3 = "BlockMeta_WriteNext ?tail ?db2"
    let ?fb = "butlast (map ?rd fs) @ [?lastFree]"
    let ?ob1 = "ob\<lparr>blocks := butlast (blocks ob) @ [?tail] @ ?fb\<rparr>"
    have lf: "last fs \<in> set fs" using False by simp
    note pl = pos_facts [OF b B fsC [OF lf, THEN conjunct1]]
    have lP: "blockPos db (last fs) = ?P (last fs)" using blockPos_id [OF pl(2)] by simp
    have lt: "last fs \<noteq> t" using fsC [OF lf] by simp
    have hdrd: "bm_idx (hd (map ?rd fs)) = hd fs" using False by (simp add: hd_map)
    have lastrd: "last (map ?rd fs) = ?rd (last fs)" using False by (simp add: last_map)
    have al: "alloc n db ob = (if n - length fs = 0 then (Ok (), ?db3, ?ob1)
                               else allocGrow (n - length fs) ?db3 ?ob1)"
      using False ne by (simp add: alloc_def tf Let_def hdrd lastrd)
    have idx_fb: "map bm_idx ?fb = fs"
    proof -
      have "map bm_idx ?fb = butlast (map bm_idx (map ?rd fs)) @ [last fs]"
        by (simp add: map_butlast)
      also have "\<dots> = butlast fs @ [last fs]" by (simp add: o_def)
      finally show ?thesis using False by simp
    qed
    have next_fb: "map bm_Next (butlast (map ?rd fs)) = tl fs"
    proof -
      have "map bm_Next (butlast (map ?rd fs)) = butlast (map bm_Next (map ?rd fs))"
        by (simp add: map_butlast)
      also have "\<dots> = butlast (map (\<lambda>i. f_u32 db (blockPos db i + 4)) fs)" by (simp add: o_def)
      also have "\<dots> = tl fs" using ic by simp
      finally show ?thesis .
    qed
    have d3: "f_u32 ?db3 (bm_pos (last (blocks ob)) + 4) = hd fs"
      using pt(3) by (simp add: BlockMeta_WriteNext_def tP)
    have m3: "meta ?db3 = (meta db)\<lparr>FirstFreeBlock := nx\<rparr>"
      by (simp add: BlockMeta_WriteNext_def WriteFirstFreeBlock_def)
    show ?thesis
    proof (cases "n - length fs = 0")
      case True
      show ?thesis
        apply (rule exI [of _ ?db3])
        apply (rule exI [of _ ?fb])
        apply (intro conjI)
        subgoal unfolding idx_fb using True by (simp add: al)
        subgoal unfolding idx_fb using True by simp
        subgoal unfolding idx_fb using next_fb by simp
        subgoal unfolding idx_fb by (rule d3)
        subgoal by (simp add: BlockMeta_WriteNext_def WriteFirstFreeBlock_def)
        subgoal using True by (simp add: BlockMeta_WriteNext_def WriteFirstFreeBlock_def)
        subgoal by (simp add: BlockMeta_WriteNext_def WriteFirstFreeBlock_def)
        done
    next
      case k: False
      let ?k = "n - length fs"
      have k0: "0 < ?k" using k by simp
      have ne1: "blocks ?ob1 \<noteq> []" by simp
      have c1: "int (BlockCount (meta ?db3)) + int ?k < 2 ^ 32" using c by (simp add: meta_simps)
      have "(int ?C + int ?k) * int ?B \<le> (int ?C + int n) * int ?B"
        by (intro mult_right_mono) auto
      then have b1: "sizeMeta + (int (BlockCount (meta ?db3)) + int ?k) * int (BlockSize (meta ?db3)) < 2 ^ 63"
        using b by (simp add: meta_simps)
      have last1: "last (blocks ?ob1) = ?lastFree" by simp
      have tp1: "bm_pos (last (blocks ?ob1)) = sizeMeta + int (last fs) * int (BlockSize (meta ?db3))"
        unfolding last1 by (simp add: meta_simps lP)
      have t1: "last fs < BlockCount (meta ?db3)" using fsC [OF lf] by (simp add: meta_simps)
      have B1: "4 < BlockSize (meta ?db3)" using B by (simp add: meta_simps)
      from allocGrow_spec [OF ne1 k0 c1 b1 tp1 t1 B1, unfolded last1]
      obtain db' bs where ag: "allocGrow ?k ?db3 ?ob1 =
            (Ok (), db', ?ob1\<lparr>blocks := butlast (blocks ?ob1)
                 @ [?lastFree\<lparr>bm_Next := BlockCount (meta ?db3)\<rparr>] @ bs\<rparr>)"
        and bs: "map bm_idx bs = [BlockCount (meta ?db3) ..< BlockCount (meta ?db3) + ?k]"
           "map bm_Next bs = tl [BlockCount (meta ?db3) ..< BlockCount (meta ?db3) + ?k] @ [0]"
        and oth: "\<forall>x. x < sizeMeta + int (BlockCount (meta ?db3)) * int (BlockSize (meta ?db3))
                   \<longrightarrow> x \<noteq> 12 \<longrightarrow> x \<noteq> bm_pos ?lastFree + 4 \<longrightarrow> f_u32 db' x = f_u32 ?db3 x"
        and m: "meta db' = (meta ?db3)\<lparr>BlockCount := BlockCount (meta ?db3) + ?k\<rparr>"
        by blast
      have C3: "BlockCount (meta ?db3) = ?C" "BlockSize (meta ?db3) = ?B" by (simp_all add: meta_simps)
      let ?nb = "butlast (map ?rd fs) @ [?lastFree\<lparr>bm_Next := ?C\<rparr>] @ bs"
      have bl: "butlast (blocks ?ob1) = butlast (blocks ob) @ [?tail] @ butlast (map ?rd fs)"
        by (simp add: butlast_append)
      have idx_nb: "map bm_idx ?nb = fs @ [?C ..< ?C + ?k]"
      proof -
        have "map bm_idx ?nb = (butlast (map bm_idx (map ?rd fs)) @ [last fs]) @ map bm_idx bs"
          by (simp add: map_butlast)
        also have "\<dots> = (butlast fs @ [last fs]) @ [?C ..< ?C + ?k]" by (simp add: o_def bs meta_simps)
        finally show ?thesis using False by simp
      qed
      have hdnb: "hd (map bm_idx ?nb) = hd fs" unfolding idx_nb using False by simp
      have next_nb: "map bm_Next ?nb = tl (fs @ [?C ..< ?C + ?k]) @ [0]"
      proof -
        have "[?C ..< ?C + ?k] = ?C # tl [?C ..< ?C + ?k]" using k0 by (simp add: upt_conv_Cons)
        then have "tl fs @ [?C] @ tl [?C ..< ?C + ?k] = tl fs @ [?C ..< ?C + ?k]" by simp
        then show ?thesis using False by (simp add: next_fb bs meta_simps del: map_butlast)
      qed
      have x1: "bm_pos (last (blocks ob)) + 4 < sizeMeta + int ?C * int ?B" using pt(1) tP by simp
      have "0 \<le> int t * int ?B" by simp
      then have x2: "bm_pos (last (blocks ob)) + 4 \<noteq> 12" unfolding tP sizeMeta_def by linarith
      have x3: "bm_pos (last (blocks ob)) + 4 \<noteq> bm_pos ?lastFree + 4"
        using lt B by (simp add: tP lP)
      have d': "f_u32 db' (bm_pos (last (blocks ob)) + 4) = hd fs"
        using oth x1 x2 x3 d3 by (simp add: meta_simps)
      show ?thesis
        apply (rule exI [of _ db'])
        apply (rule exI [of _ ?nb])
        apply (intro conjI)
        subgoal using k ag unfolding hdnb by (simp add: al butlast_append meta_simps)
        subgoal by (rule idx_nb)
        subgoal unfolding idx_nb by (rule next_nb)
        subgoal unfolding hdnb by (rule d')
        subgoal by (simp add: m meta_simps)
        subgoal by (simp add: m meta_simps)
        subgoal by (simp add: m meta_simps)
        done
    qed
  qed
qed

lemma is_chain_cong:
  "(\<And>i. i \<in> set fs \<Longrightarrow> f_u32 db' (blockPos db' i + 4) = f_u32 db (blockPos db i + 4)) \<Longrightarrow>
   is_chain db' a fs b = is_chain db a fs b"
  by (induction fs arbitrary: a) simp_all

lemma pos_apart:
  assumes "4 < B"
  shows "sizeMeta + int i * int B + 4 \<noteq> sizeMeta + int t * int B"
proof
  assume "sizeMeta + int i * int B + 4 = sizeMeta + int t * int B"
  then have "int B * (int t - int i) = 4" by (simp add: algebra_simps)
  then have "int B dvd 4" by (metis dvd_triv_left)
  then have "int B \<le> 4" by (rule zdvd_imp_le) simp
  then show False using assms by simp
qed

lemma newBlocks_floor: "r div B < 2 ^ 32 \<Longrightarrow> newBlocks r B = max 1 (r div B)"
  by (auto simp: newBlocks_def Let_def u32_id max_def)

lemma write_step_full:
  assumes B: "BlockSize (meta db) = B" "8 < B" "B < 2 ^ 32"
    and cur: "posBlockIdx ob + 1 = length (blocks ob)"
    and tl: "bm_Next (last (blocks ob)) = 0"
    and off: "posBlockOff ob \<le> B - 8"
    and rem: "length p = (B - 8 - posBlockOff ob) + r" "0 < r"
  shows "write_step db ob p =
     (let tail = (last (blocks ob))\<lparr>bm_End := max (bm_End (last (blocks ob))) (B - 8)\<rparr>;
          db1 = db\<lparr>f_byte := writeBytes (i64 (i64 (bm_pos (last (blocks ob)) + 8) + int (posBlockOff ob)))
                                    (take (B - 8 - posBlockOff ob) p) (f_byte db)\<rparr>;
          db2 = (if bm_End (last (blocks ob)) < B - 8 then BlockMeta_WriteEnd tail db1 else db1);
          ob2 = ob\<lparr>offset := i64 (offset ob + int (B - 8 - posBlockOff ob)),
                   posBlockOff := B - 8,
                   blocks := butlast (blocks ob) @ [tail]\<rparr>
      in case alloc (newBlocks r B) db2 ob2 of
           (Ok u, db3, ob3) \<Rightarrow>
              (Ok (B - 8 - posBlockOff ob, drop (B - 8 - posBlockOff ob) p), db3,
               ob3\<lparr>posBlockIdx := posBlockIdx ob3 + 1, posBlockOff := 0\<rparr>)
         | (Err e, db3, ob3) \<Rightarrow> (Err e, db3, ob3)
         | (Timeout, db3, ob3) \<Rightarrow> (Timeout, db3, ob3))"
proof -
  let ?w = "B - 8 - posBlockOff ob"
  have ne: "blocks ob \<noteq> []" using cur by auto
  have idx: "posBlockIdx ob = length (blocks ob) - 1" using cur by simp
  have bm: "blocks ob ! posBlockIdx ob = last (blocks ob)" using ne idx by (simp add: last_conv_nth)
  have room: "u32 (int B - int BlockMeta_Size) = B - 8"
    using B by (subst u32_id) (simp_all add: BlockMeta_Size_def nat_diff_distrib)
  have cw0: "u32 (int (B - 8) - int (posBlockOff ob)) = ?w"
    using B off by (subst u32_id) (simp_all add: nat_diff_distrib)
  have po: "u32 (int (posBlockOff ob) + int ?w) = B - 8"
    using B off by (subst u32_id) (simp_all add: nat_add_distrib)
  have po': "u32 (int (posBlockOff ob) + int (B - (8 + posBlockOff ob))) = B - 8"
    using po by simp
  have upd: "(blocks ob)[posBlockIdx ob := x] = butlast (blocks ob) @ [x]" for x
    using ne unfolding idx
    by (metis append_butlast_last_id length_butlast list_update_length)
  have dr: "drop ?w p \<noteq> []" "length (drop ?w p) = r" using rem by simp_all
  have nl: "\<not> length p < ?w" using rem by simp
  show ?thesis
    unfolding write_step_def Let_def B(1) room cw0 bm
    using cur B(2) tl dr nl
    by (simp add: po po' upd BlockMeta_Size_def max_def)
qed

lemmas blockdb_defs = write_step_def alloc_def allocGrow_def grow_def growBlock_def newBlocks_def
  BlockMeta_ReadFrom_def BlockMeta_WriteTo_def BlockMeta_WriteEnd_def BlockMeta_WriteNext_def
  WriteBlockCount_def WriteFirstFreeBlock_def blockPos_def sizeMeta_def BlockMeta_Size_def
  writeBytes_def u32_def i64_def Let_def

lemma upt_numeral_eval: "[i ..< numeral k] = (if i < numeral k then i # [Suc i ..< numeral k] else [])"
  by (rule upt_rec)

text \<open>
  C5, as stated: when the block is full, has no successor and \<open>remaining\<close> bytes are
  left, \<^verbatim>\<open>Object.Write\<close> allocates \<open>ceil(remaining / BlockSize)\<close> blocks. The code
  allocates \<open>remaining div BlockSize\<close> blocks, and one if that is 0. With a block size of
  16 (a payload of 8 bytes per block) and 25 bytes written to an empty object of one
  block, the first call of \<^verbatim>\<open>write\<close> fills the block with 8 bytes; 17 bytes remain,
  \<open>ceil(17 / 16)\<close> is 2, and the object has one block more, not two. The blocks that are
  still missing are allocated one by one by the calls that follow, and the write as a whole
  returns 25 with the object on the blocks 1, 2, 3 and 4.
\<close>

theorem write_allocates_floor_not_ceil:
  "fst (write_step
         \<lparr>meta = \<lparr>BlockSize = 16, BlockCount = 2, FirstFreeBlock = 0\<rparr>,
          f_u32 = (\<lambda>x. 0), f_byte = (\<lambda>x. 0)\<rparr>
         \<lparr>blocks = [\<lparr>bm_pos = 36, bm_idx = 1, bm_End = 0, bm_Next = 0\<rparr>],
          offset = 0, posBlockIdx = 0, posBlockOff = 0\<rparr>
         (replicate 25 1)) = Ok (8, replicate 17 1)
   \<and> map bm_idx (blocks (snd (snd (write_step
         \<lparr>meta = \<lparr>BlockSize = 16, BlockCount = 2, FirstFreeBlock = 0\<rparr>,
          f_u32 = (\<lambda>x. 0), f_byte = (\<lambda>x. 0)\<rparr>
         \<lparr>blocks = [\<lparr>bm_pos = 36, bm_idx = 1, bm_End = 0, bm_Next = 0\<rparr>],
          offset = 0, posBlockIdx = 0, posBlockOff = 0\<rparr>
         (replicate 25 1))))) = [1, 2]
   \<and> (17 + (16 - 1)) div 16 = (2 :: nat)
   \<and> fst (Object_Write 4
         \<lparr>meta = \<lparr>BlockSize = 16, BlockCount = 2, FirstFreeBlock = 0\<rparr>,
          f_u32 = (\<lambda>x. 0), f_byte = (\<lambda>x. 0)\<rparr>
         \<lparr>blocks = [\<lparr>bm_pos = 36, bm_idx = 1, bm_End = 0, bm_Next = 0\<rparr>],
          offset = 0, posBlockIdx = 0, posBlockOff = 0\<rparr>
         (replicate 25 1)) = Ok 25
   \<and> map bm_idx (blocks (snd (snd (Object_Write 4
         \<lparr>meta = \<lparr>BlockSize = 16, BlockCount = 2, FirstFreeBlock = 0\<rparr>,
          f_u32 = (\<lambda>x. 0), f_byte = (\<lambda>x. 0)\<rparr>
         \<lparr>blocks = [\<lparr>bm_pos = 36, bm_idx = 1, bm_End = 0, bm_Next = 0\<rparr>],
          offset = 0, posBlockIdx = 0, posBlockOff = 0\<rparr>
         (replicate 25 1))))) = [1, 2, 3, 4]"
  by (simp add: Object_Write_def blockdb_defs upt_numeral_eval
        Object_write.simps(2) [of "pred_numeral k" for k, folded numeral_eq_Suc])

text \<open>
  C5, amended. The cursor is in the last block of the object, that block has no successor,
  and the input \<open>p\<close> is longer than the room left in the block by \<open>r > 0\<close> bytes. The block
  size \<open>B\<close> is more than 8, the block is at the position of its index, and the sizes fit
  their types. \<open>fs\<close> are the first blocks of the free list, as many as the list has up
  to \<open>n = max 1 (r div B)\<close>, none of them the object's last block. Then the call of
  \<^verbatim>\<open>write\<close> up to its recursive call
  \<^item> writes the bytes that fill the block and leaves the rest;
  \<^item> appends exactly \<open>n\<close> blocks to the object: the free blocks \<open>fs\<close> first, then
    \<open>n - length fs\<close> new blocks at the end of the file, with the indices from
    \<open>BlockCount\<close> on;
  \<^item> chains them: the \<^verbatim>\<open>Next\<close> of the previous last block is the first of them, in
    memory and on the file, each \<^verbatim>\<open>Next\<close> is the block that follows, and the last is 0;
  \<^item> takes \<open>fs\<close> off the free list and counts the new blocks in \<^verbatim>\<open>BlockCount\<close>;
  \<^item> moves the cursor to the start of the first of the blocks appended.
\<close>

theorem write_allocates_on_full_tail:
  assumes B: "BlockSize (meta db) = B" "8 < B" "B < 2 ^ 32"
    and C: "BlockCount (meta db) = C"
    and cur: "posBlockIdx ob + 1 = length (blocks ob)"
    and tl: "bm_Next (last (blocks ob)) = 0"
    and tpos: "bm_pos (last (blocks ob)) = blockPos db (bm_idx (last (blocks ob)))"
    and tidx: "bm_idx (last (blocks ob)) < C"
    and off: "posBlockOff ob \<le> B - 8"
    and rem: "length p = (B - 8 - posBlockOff ob) + r" "0 < r"
    and n: "n = max 1 (r div B)" "r div B < 2 ^ 32"
    and chain: "is_chain db (FirstFreeBlock (meta db)) fs nx"
    and len: "length fs \<le> n"
    and short: "length fs < n \<longrightarrow> nx = 0"
    and fsC: "\<forall>i \<in> set fs. i < C \<and> i \<noteq> bm_idx (last (blocks ob))"
    and c: "int C + int n < 2 ^ 32"
    and b: "sizeMeta + (int C + int n) * int B < 2 ^ 63"
  shows "\<exists>db' ob' tail' nb.
      write_step db ob p = (Ok (B - 8 - posBlockOff ob, drop (B - 8 - posBlockOff ob) p), db', ob')
    \<and> blocks ob' = butlast (blocks ob) @ [tail'] @ nb
    \<and> length nb = n
    \<and> map bm_idx nb = fs @ [C ..< C + (n - length fs)]
    \<and> map bm_Next (tail' # nb) = map bm_idx nb @ [0]
    \<and> bm_idx tail' = bm_idx (last (blocks ob))
    \<and> bm_pos tail' = bm_pos (last (blocks ob))
    \<and> bm_End tail' = max (bm_End (last (blocks ob))) (B - 8)
    \<and> f_u32 db' (bm_pos tail' + 4) = hd (map bm_idx nb)
    \<and> FirstFreeBlock (meta db') = nx
    \<and> BlockCount (meta db') = C + (n - length fs)
    \<and> posBlockIdx ob' = posBlockIdx ob + 1
    \<and> posBlockOff ob' = 0"
proof -
  let ?t = "bm_idx (last (blocks ob))"
  let ?tail = "(last (blocks ob))\<lparr>bm_End := max (bm_End (last (blocks ob))) (B - 8)\<rparr>"
  let ?db1 = "db\<lparr>f_byte := writeBytes (i64 (i64 (bm_pos (last (blocks ob)) + 8) + int (posBlockOff ob)))
                                    (take (B - 8 - posBlockOff ob) p) (f_byte db)\<rparr>"
  let ?db2 = "if bm_End (last (blocks ob)) < B - 8 then BlockMeta_WriteEnd ?tail ?db1 else ?db1"
  let ?ob2 = "ob\<lparr>offset := i64 (offset ob + int (B - 8 - posBlockOff ob)),
                   posBlockOff := B - 8,
                   blocks := butlast (blocks ob) @ [?tail]\<rparr>"
  have nb: "newBlocks r B = n" using n by (simp add: newBlocks_floor)
  have n0: "0 < n" using n by simp
  have B4: "4 < BlockSize (meta db)" using B by simp
  have bb: "sizeMeta + (int (BlockCount (meta db)) + int n) * int (BlockSize (meta db)) < 2 ^ 63"
    using b B C by simp
  have tC: "?t < BlockCount (meta db)" using tidx C by simp
  note pt = pos_facts [OF bb B4 tC]
  have tP: "bm_pos (last (blocks ob)) = sizeMeta + int ?t * int (BlockSize (meta db))"
    using tpos blockPos_id [OF pt(2)] by simp
  have m2: "meta ?db2 = meta db" by (simp add: meta_simps)
  have bp2: "blockPos ?db2 i = blockPos db i" for i by (simp add: blockPos_def meta_simps)
  have f2: "f_u32 ?db2 (blockPos ?db2 i + 4) = f_u32 db (blockPos db i + 4)" if "i \<in> set fs" for i
  proof -
    have iC: "i < BlockCount (meta db)" using fsC that C by simp
    note pi = pos_facts [OF bb B4 iC]
    have "blockPos db i + 4 \<noteq> bm_pos (last (blocks ob))"
      unfolding tP blockPos_id [OF pi(2)] using B4 by (rule pos_apart)
    then show ?thesis unfolding bp2 by (simp add: BlockMeta_WriteEnd_def)
  qed
  have chain2: "is_chain ?db2 (FirstFreeBlock (meta ?db2)) fs nx"
    unfolding m2 using is_chain_cong [of fs ?db2 db, OF f2] chain by simp
  have short2: "length fs < n \<Longrightarrow> nx = 0" using short by simp
  have ne2: "blocks ?ob2 \<noteq> []" by simp
  have last2: "last (blocks ?ob2) = ?tail" by simp
  have tp2: "bm_pos (last (blocks ?ob2)) = blockPos ?db2 ?t" unfolding bp2 last2 using tpos by simp
  have t2: "?t < BlockCount (meta ?db2)" unfolding m2 by (rule tC)
  have fsC2: "i < BlockCount (meta ?db2) \<and> i \<noteq> ?t" if "i \<in> set fs" for i
    unfolding m2 using fsC that C by simp
  have B2: "4 < BlockSize (meta ?db2)" unfolding m2 by (rule B4)
  have c2: "int (BlockCount (meta ?db2)) + int n < 2 ^ 32" unfolding m2 using c C by simp
  have b2: "sizeMeta + (int (BlockCount (meta ?db2)) + int n) * int (BlockSize (meta ?db2)) < 2 ^ 63"
    unfolding m2 by (rule bb)
  from alloc_spec [OF chain2 len short2 n0 ne2 tp2 t2 fsC2 B2 c2 b2, unfolded last2 m2]
  obtain db' nb where al: "alloc n ?db2 ?ob2 =
            (Ok (), db', ?ob2\<lparr>blocks := butlast (blocks ?ob2)
                 @ [?tail\<lparr>bm_Next := hd (map bm_idx nb)\<rparr>] @ nb\<rparr>)"
    and idx: "map bm_idx nb = fs @ [BlockCount (meta db) ..< BlockCount (meta db) + (n - length fs)]"
    and nxt: "map bm_Next nb = tl (map bm_idx nb) @ [0]"
    and dsk: "f_u32 db' (bm_pos ?tail + 4) = hd (map bm_idx nb)"
    and ffb: "FirstFreeBlock (meta db') = nx"
    and bc: "BlockCount (meta db') = BlockCount (meta db) + (n - length fs)"
    by blast
  let ?tail' = "?tail\<lparr>bm_Next := hd (map bm_idx nb)\<rparr>"
  let ?ob' = "?ob2\<lparr>blocks := butlast (blocks ?ob2) @ [?tail'] @ nb,
                   posBlockIdx := posBlockIdx ob + 1, posBlockOff := 0\<rparr>"
  have ws: "write_step db ob p =
      (Ok (B - 8 - posBlockOff ob, drop (B - 8 - posBlockOff ob) p), db', ?ob')"
    unfolding write_step_full [OF B cur tl off rem] Let_def nb al by simp
  have lnb: "length nb = n"
  proof -
    have "length nb = length (map bm_idx nb)" by simp
    also have "\<dots> = n" unfolding idx using len by simp
    finally show ?thesis .
  qed
  have nbne: "map bm_idx nb \<noteq> []" using lnb n0 by auto
  have nx': "map bm_Next (?tail' # nb) = map bm_idx nb @ [0]"
    using nxt nbne by simp
  show ?thesis
    apply (rule exI [of _ db'])
    apply (rule exI [of _ ?ob'])
    apply (rule exI [of _ ?tail'])
    apply (rule exI [of _ nb])
    apply (intro conjI)
    subgoal by (rule ws)
    subgoal by simp
    subgoal by (rule lnb)
    subgoal using idx C by simp
    subgoal by (rule nx')
    subgoal by simp
    subgoal by simp
    subgoal by simp
    subgoal using dsk by simp
    subgoal by (rule ffb)
    subgoal using bc C by simp
    subgoal by simp
    subgoal by simp
    done
qed

theorem write_allocates_on_full_tail_witness:
  "is_chain \<lparr>meta = \<lparr>BlockSize = 16, BlockCount = 4, FirstFreeBlock = 3\<rparr>,
             f_u32 = (\<lambda>x. 0), f_byte = (\<lambda>x. 0)\<rparr> 3 [3] 0
   \<and> fst (write_step
         \<lparr>meta = \<lparr>BlockSize = 16, BlockCount = 4, FirstFreeBlock = 3\<rparr>,
          f_u32 = (\<lambda>x. 0), f_byte = (\<lambda>x. 0)\<rparr>
         \<lparr>blocks = [\<lparr>bm_pos = 36, bm_idx = 1, bm_End = 0, bm_Next = 0\<rparr>],
          offset = 0, posBlockIdx = 0, posBlockOff = 0\<rparr>
         (replicate 45 1)) = Ok (8, replicate 37 1)
   \<and> map bm_idx (blocks (snd (snd (write_step
         \<lparr>meta = \<lparr>BlockSize = 16, BlockCount = 4, FirstFreeBlock = 3\<rparr>,
          f_u32 = (\<lambda>x. 0), f_byte = (\<lambda>x. 0)\<rparr>
         \<lparr>blocks = [\<lparr>bm_pos = 36, bm_idx = 1, bm_End = 0, bm_Next = 0\<rparr>],
          offset = 0, posBlockIdx = 0, posBlockOff = 0\<rparr>
         (replicate 45 1))))) = [1, 3, 4]
   \<and> map bm_Next (blocks (snd (snd (write_step
         \<lparr>meta = \<lparr>BlockSize = 16, BlockCount = 4, FirstFreeBlock = 3\<rparr>,
          f_u32 = (\<lambda>x. 0), f_byte = (\<lambda>x. 0)\<rparr>
         \<lparr>blocks = [\<lparr>bm_pos = 36, bm_idx = 1, bm_End = 0, bm_Next = 0\<rparr>],
          offset = 0, posBlockIdx = 0, posBlockOff = 0\<rparr>
         (replicate 45 1))))) = [3, 4, 0]
   \<and> f_u32 (fst (snd (write_step
         \<lparr>meta = \<lparr>BlockSize = 16, BlockCount = 4, FirstFreeBlock = 3\<rparr>,
          f_u32 = (\<lambda>x. 0), f_byte = (\<lambda>x. 0)\<rparr>
         \<lparr>blocks = [\<lparr>bm_pos = 36, bm_idx = 1, bm_End = 0, bm_Next = 0\<rparr>],
          offset = 0, posBlockIdx = 0, posBlockOff = 0\<rparr>
         (replicate 45 1)))) (36 + 4) = 3
   \<and> BlockCount (meta (fst (snd (write_step
         \<lparr>meta = \<lparr>BlockSize = 16, BlockCount = 4, FirstFreeBlock = 3\<rparr>,
          f_u32 = (\<lambda>x. 0), f_byte = (\<lambda>x. 0)\<rparr>
         \<lparr>blocks = [\<lparr>bm_pos = 36, bm_idx = 1, bm_End = 0, bm_Next = 0\<rparr>],
          offset = 0, posBlockIdx = 0, posBlockOff = 0\<rparr>
         (replicate 45 1))))) = 5"
proof -
  let ?db = "\<lparr>meta = \<lparr>BlockSize = 16, BlockCount = 4, FirstFreeBlock = 3\<rparr>,
             f_u32 = (\<lambda>x. 0), f_byte = (\<lambda>x. 0)\<rparr> :: BlockDB"
  let ?ob = "\<lparr>blocks = [\<lparr>bm_pos = 36, bm_idx = 1, bm_End = 0, bm_Next = 0\<rparr>],
          offset = 0, posBlockIdx = 0, posBlockOff = 0\<rparr>"
  let ?p = "replicate 45 (1 :: byte)"
  have bp: "blockPos ?db 1 = 36" by (simp add: blockPos_def sizeMeta_def i64_def)
  have ch: "is_chain ?db (FirstFreeBlock (meta ?db)) [3] 0" by simp
  have T: "\<exists>db' ob' tail' nb.
      write_step ?db ?ob ?p = (Ok (16 - 8 - posBlockOff ?ob, drop (16 - 8 - posBlockOff ?ob) ?p), db', ob')
    \<and> blocks ob' = butlast (blocks ?ob) @ [tail'] @ nb
    \<and> length nb = 2
    \<and> map bm_idx nb = [3] @ [4 ..< 4 + (2 - length [3::nat])]
    \<and> map bm_Next (tail' # nb) = map bm_idx nb @ [0]
    \<and> bm_idx tail' = bm_idx (last (blocks ?ob))
    \<and> bm_pos tail' = bm_pos (last (blocks ?ob))
    \<and> bm_End tail' = max (bm_End (last (blocks ?ob))) (16 - 8)
    \<and> f_u32 db' (bm_pos tail' + 4) = hd (map bm_idx nb)
    \<and> FirstFreeBlock (meta db') = 0
    \<and> BlockCount (meta db') = 4 + (2 - length [3::nat])
    \<and> posBlockIdx ob' = posBlockIdx ?ob + 1
    \<and> posBlockOff ob' = 0"
  proof (rule write_allocates_on_full_tail [where r = 37])
  qed (simp_all add: blockPos_def sizeMeta_def i64_def)
  then obtain db' ob' tail' nb where
    ws: "write_step ?db ?ob ?p = (Ok (16 - 8 - posBlockOff ?ob, drop (16 - 8 - posBlockOff ?ob) ?p), db', ob')"
    and bl: "blocks ob' = butlast (blocks ?ob) @ [tail'] @ nb"
    and idx: "map bm_idx nb = [3] @ [4 ..< 4 + (2 - length [3::nat])]"
    and nxt: "map bm_Next (tail' # nb) = map bm_idx nb @ [0]"
    and ti: "bm_idx tail' = bm_idx (last (blocks ?ob))"
    and tp: "bm_pos tail' = bm_pos (last (blocks ?ob))"
    and dsk: "f_u32 db' (bm_pos tail' + 4) = hd (map bm_idx nb)"
    and bc: "BlockCount (meta db') = 4 + (2 - length [3::nat])"
    by (elim exE conjE)
  have idx': "map bm_idx nb = [3, 4]" using idx by (simp add: upt_rec)
  have nxt': "bm_Next tail' = 3" "map bm_Next nb = [4, 0]" using nxt unfolding idx' by simp_all
  have tp': "bm_pos tail' = 36" using tp by simp
  have dsk': "f_u32 db' 40 = 3" using dsk by (simp add: idx' tp')
  show ?thesis
    using ch unfolding ws by (simp add: bl idx' nxt' ti dsk' bc)
qed

end
